theory Spec2Isabelle
  imports Main "HOL-Library.AList"
begin

section \<open>Values, text and time\<close>

text \<open>
  The program is \<^verbatim>\<open>src/main.py\<close>: a FastAPI service whose class \<^verbatim>\<open>ArxivSummarizer\<close>
  searches arXiv, asks an Ollama model for analyses and runs automation workflows in
  background tasks, keeping their state in the dictionary \<^verbatim>\<open>active_workflows\<close>.

  Python values that end up in a results dictionary or come out of \<^verbatim>\<open>json.loads\<close> are
  JSON values. A dictionary is an association list in insertion order; storing under a
  key that is already present keeps the key's position (\<open>AList.update\<close>), as Python does.
  Text is \<open>string\<close>; a float is kept as the text of its literal.
\<close>

datatype json =
    JNull
  | JBool bool
  | JInt int
  | JFloat string
  | JStr string
  | JArr "json list"
  | JObj "(string \<times> json) list"

type_synonym dict = "(string \<times> json) list"

definition dict_get :: "dict \<Rightarrow> string \<Rightarrow> json \<Rightarrow> json" where
  \<comment> \<open>\<^verbatim>\<open>d.get(key, default)\<close>\<close>
  "dict_get d k dflt = (case map_of d k of None \<Rightarrow> dflt | Some v \<Rightarrow> v)"

definition digit_char :: "nat \<Rightarrow> char" where
  "digit_char d = char_of (48 + d mod 10)"

function str_nat :: "nat \<Rightarrow> string" where
  "str_nat n = (if n < 10 then [digit_char n] else str_nat (n div 10) @ [digit_char (n mod 10)])"
  by pat_completeness auto
termination
  by (relation "measure id") auto

declare str_nat.simps [simp del]

definition str_int :: "int \<Rightarrow> string" where
  "str_int i = (if i < 0 then CHR ''-'' # str_nat (nat (- i)) else str_nat (nat i))"

definition zero_pad :: "nat \<Rightarrow> nat \<Rightarrow> string" where
  \<comment> \<open>the format \<^verbatim>\<open>%0wd\<close>\<close>
  "zero_pad w n = replicate (w - length (str_nat n)) CHR ''0'' @ str_nat n"

record datetime =
  year :: nat
  month :: nat
  day :: nat
  hour :: nat
  minute :: nat
  second :: nat
  microsecond :: nat

definition isoformat :: "datetime \<Rightarrow> string" where
  "isoformat t =
     zero_pad 4 (year t) @ ''-'' @ zero_pad 2 (month t) @ ''-'' @ zero_pad 2 (day t) @ ''T'' @
     zero_pad 2 (hour t) @ '':'' @ zero_pad 2 (minute t) @ '':'' @ zero_pad 2 (second t) @
     (if microsecond t = 0 then [] else ''.'' @ zero_pad 6 (microsecond t))"

definition strftime_stamp :: "datetime \<Rightarrow> string" where
  \<comment> \<open>\<^verbatim>\<open>strftime("%Y%m%d_%H%M%S")\<close>\<close>
  "strftime_stamp t =
     zero_pad 4 (year t) @ zero_pad 2 (month t) @ zero_pad 2 (day t) @ ''_'' @
     zero_pad 2 (hour t) @ zero_pad 2 (minute t) @ zero_pad 2 (second t)"

definition is_space :: "char \<Rightarrow> bool" where
  \<comment> \<open>the characters \<^verbatim>\<open>str.strip()\<close> removes, among the 8-bit ones\<close>
  "is_space c = (of_char c \<in> {9, 10, 11, 12, 13, 28, 29, 30, 31, 32, 133, 160 :: nat})"

definition strip :: "string \<Rightarrow> string" where
  "strip s = rev (dropWhile is_space (rev (dropWhile is_space s)))"

fun find_char :: "char \<Rightarrow> string \<Rightarrow> int" where
  \<comment> \<open>\<^verbatim>\<open>s.find(c)\<close>: index of the first occurrence, \<open>-1\<close> when there is none\<close>
  "find_char c [] = - 1"
| "find_char c (x # xs) =
     (if x = c then 0 else (let i = find_char c xs in if i = - 1 then - 1 else i + 1))"

definition rfind_char :: "char \<Rightarrow> string \<Rightarrow> int" where
  \<comment> \<open>\<^verbatim>\<open>s.rfind(c)\<close>: index of the last occurrence, \<open>-1\<close> when there is none\<close>
  "rfind_char c s =
     (let i = find_char c (rev s) in if i = - 1 then - 1 else int (length s) - 1 - i)"

definition slice :: "string \<Rightarrow> int \<Rightarrow> int \<Rightarrow> string" where
  \<comment> \<open>\<^verbatim>\<open>s[a:b]\<close>: a negative index counts from the end, both are clamped to the text\<close>
  "slice s a b =
     (let n = int (length s);
          a' = (if a < 0 then max 0 (n + a) else min a n);
          b' = (if b < 0 then max 0 (n + b) else min b n)
      in take (nat (b' - a')) (drop (nat a') s))"

definition replace_char :: "char \<Rightarrow> char \<Rightarrow> string \<Rightarrow> string" where
  \<comment> \<open>\<^verbatim>\<open>s.replace(old, new)\<close> for one-character texts\<close>
  "replace_char old new s = map (\<lambda>c. if c = old then new else c) s"

section \<open>Reading JSON and printing values\<close>

text \<open>
  \<^verbatim>\<open>json.loads\<close> belongs to Python's library; it is modelled after its decoder:
  white space is blank, tab, line feed and carriage return; a text is read up to the closing
  quote, with the escapes of JSON and no control character; a number is an integer unless
  it has a fraction or an exponent; \<^verbatim>\<open>NaN\<close>, \<^verbatim>\<open>Infinity\<close> and \<^verbatim>\<open>-Infinity\<close> are accepted;
  a repeated key of an object keeps its first position and its last value; only white space
  may follow the value. \<open>None\<close> is the decoder's \<^verbatim>\<open>JSONDecodeError\<close>. Characters are
  8-bit here, so an escape \<^verbatim>\<open>\uXXXX\<close> above \<^verbatim>\<open>00FF\<close> has no counterpart and is refused.
  The decoder recurses on nested values; the recursion is counted down from twice the length
  of the text, which is never used up (lemma \<open>json_loads_fuel\<close>).
\<close>

definition is_json_ws :: "char \<Rightarrow> bool" where
  "is_json_ws c = (of_char c \<in> {32, 9, 10, 13 :: nat})"

definition skip_ws :: "string \<Rightarrow> string" where
  "skip_ws = dropWhile is_json_ws"

definition is_digit :: "char \<Rightarrow> bool" where
  "is_digit c = (48 \<le> (of_char c :: nat) \<and> (of_char c :: nat) \<le> 57)"

definition hex_value :: "char \<Rightarrow> nat option" where
  "hex_value c =
     (let n = (of_char c :: nat) in
      if 48 \<le> n \<and> n \<le> 57 then Some (n - 48)
      else if 97 \<le> n \<and> n \<le> 102 then Some (n - 87)
      else if 65 \<le> n \<and> n \<le> 70 then Some (n - 55)
      else None)"

fun hex_number :: "nat \<Rightarrow> string \<Rightarrow> nat option" where
  "hex_number acc [] = Some acc"
| "hex_number acc (c # cs) =
     (case hex_value c of None \<Rightarrow> None | Some d \<Rightarrow> hex_number (16 * acc + d) cs)"

definition unescape :: "char \<Rightarrow> char option" where
  "unescape c =
     (if c = CHR 0x22 then Some (CHR 0x22)
      else if c = CHR 0x5C then Some (CHR 0x5C)
      else if c = CHR ''/'' then Some (CHR ''/'')
      else if c = CHR ''b'' then Some (CHR 0x08)
      else if c = CHR ''f'' then Some (CHR 0x0C)
      else if c = CHR ''n'' then Some (CHR 0x0A)
      else if c = CHR ''r'' then Some (CHR 0x0D)
      else if c = CHR ''t'' then Some (CHR 0x09)
      else None)"

fun scan_string :: "string \<Rightarrow> string \<Rightarrow> (string \<times> string) option" where
  \<comment> \<open>the text after an opening quote: its content so far, and what is left to read\<close>
  "scan_string acc [] = None"
| "scan_string acc (c # cs) =
     (if c = CHR 0x22 then Some (acc, cs)
      else if c = CHR 0x5C then
        (case cs of
           [] \<Rightarrow> None
         | x # cs' \<Rightarrow>
             if x = CHR ''u'' then
               (if length cs' < 4 then None
                else case hex_number 0 (take 4 cs') of
                       None \<Rightarrow> None
                     | Some n \<Rightarrow> if n < 256 then scan_string (acc @ [char_of n]) (drop 4 cs') else None)
             else (case unescape x of None \<Rightarrow> None | Some u \<Rightarrow> scan_string (acc @ [u]) cs'))
      else if (of_char c :: nat) < 32 then None
      else scan_string (acc @ [c]) cs)"

fun digits_value :: "nat \<Rightarrow> string \<Rightarrow> nat" where
  "digits_value acc [] = acc"
| "digits_value acc (c # cs) = digits_value (10 * acc + ((of_char c :: nat) - 48)) cs"

definition scan_number :: "string \<Rightarrow> (json \<times> string) option" where
  \<comment> \<open>the decoder's pattern \<^verbatim>\<open>(-?(?:0|[1-9]\d*))(\.\d+)?([eE][-+]?\d+)?\<close>\<close>
  "scan_number cs =
     (let neg = (cs \<noteq> [] \<and> hd cs = CHR ''-'');
          r0 = (if neg then tl cs else cs);
          ds = takeWhile is_digit r0
      in if ds = [] then None
         else
           (let ip = (if hd ds = CHR ''0'' then ''0'' else ds);
                r1 = drop (length ip) r0;
                fd = (if r1 \<noteq> [] \<and> hd r1 = CHR ''.'' then takeWhile is_digit (tl r1) else []);
                frac = (if fd = [] then [] else CHR ''.'' # fd);
                r2 = drop (length frac) r1;
                has_e = (r2 \<noteq> [] \<and> (hd r2 = CHR ''e'' \<or> hd r2 = CHR ''E''));
                r2' = (if has_e then tl r2 else r2);
                sg = (if has_e \<and> r2' \<noteq> [] \<and> (hd r2' = CHR ''+'' \<or> hd r2' = CHR ''-'') then [hd r2'] else []);
                ed = (if has_e then takeWhile is_digit (drop (length sg) r2') else []);
                ex = (if ed = [] then [] else hd r2 # sg @ ed);
                r3 = drop (length ex) r2
            in if frac = [] \<and> ex = []
               then Some (JInt (if neg then - int (digits_value 0 ip) else int (digits_value 0 ip)), r3)
               else Some (JFloat ((if neg then ''-'' else []) @ ip @ frac @ ex), r3)))"

definition starts_with :: "string \<Rightarrow> string \<Rightarrow> bool" where
  "starts_with p cs = (take (length p) cs = p)"

definition scan_atom :: "string \<Rightarrow> (json \<times> string) option" where
  \<comment> \<open>the decoder's order: the three names, a number, then the three special floats\<close>
  "scan_atom cs =
     (if starts_with ''null'' cs then Some (JNull, drop 4 cs)
      else if starts_with ''true'' cs then Some (JBool True, drop 4 cs)
      else if starts_with ''false'' cs then Some (JBool False, drop 5 cs)
      else case scan_number cs of
             Some r \<Rightarrow> Some r
           | None \<Rightarrow>
               if starts_with ''NaN'' cs then Some (JFloat ''NaN'', drop 3 cs)
               else if starts_with ''Infinity'' cs then Some (JFloat ''Infinity'', drop 8 cs)
               else if starts_with ''-Infinity'' cs then Some (JFloat ''-Infinity'', drop 9 cs)
               else None)"

fun scan_value :: "nat \<Rightarrow> string \<Rightarrow> (json \<times> string) option"
  and scan_array :: "nat \<Rightarrow> json list \<Rightarrow> string \<Rightarrow> (json \<times> string) option"
  and scan_object :: "nat \<Rightarrow> dict \<Rightarrow> string \<Rightarrow> (json \<times> string) option" where
  "scan_value 0 cs = None"
| "scan_value (Suc n) cs =
     (case cs of
        [] \<Rightarrow> None
      | c # r \<Rightarrow>
          if c = CHR 0x22 then
            (case scan_string [] r of None \<Rightarrow> None | Some (t, r') \<Rightarrow> Some (JStr t, r'))
          else if c = CHR 0x7B then
            (case skip_ws r of
               [] \<Rightarrow> None
             | d # r' \<Rightarrow> if d = CHR 0x7D then Some (JObj [], r') else scan_object n [] (skip_ws r))
          else if c = CHR 0x5B then
            (case skip_ws r of
               [] \<Rightarrow> None
             | d # r' \<Rightarrow> if d = CHR 0x5D then Some (JArr [], r') else scan_array n [] (skip_ws r))
          else scan_atom cs)"
| "scan_array 0 acc cs = None"
| "scan_array (Suc n) acc cs =
     (case scan_value n cs of
        None \<Rightarrow> None
      | Some (v, r) \<Rightarrow>
          (case skip_ws r of
             [] \<Rightarrow> None
           | d # r' \<Rightarrow>
               if d = CHR 0x5D then Some (JArr (acc @ [v]), r')
               else if d = CHR '','' then scan_array n (acc @ [v]) (skip_ws r')
               else None))"
| "scan_object 0 acc cs = None"
| "scan_object (Suc n) acc cs =
     (case cs of
        [] \<Rightarrow> None
      | q # r \<Rightarrow>
          if q \<noteq> CHR 0x22 then None
          else
            (case scan_string [] r of
               None \<Rightarrow> None
             | Some (k, r1) \<Rightarrow>
                 (case skip_ws r1 of
                    [] \<Rightarrow> None
                  | col # r2 \<Rightarrow>
                      if col \<noteq> CHR '':'' then None
                      else
                        (case scan_value n (skip_ws r2) of
                           None \<Rightarrow> None
                         | Some (v, r3) \<Rightarrow>
                             (case skip_ws r3 of
                                [] \<Rightarrow> None
                              | d # r4 \<Rightarrow>
                                  if d = CHR 0x7D then Some (JObj (AList.update k v acc), r4)
                                  else if d = CHR '','' then
                                    scan_object n (AList.update k v acc) (skip_ws r4)
                                  else None)))))"

definition json_loads :: "string \<Rightarrow> json option" where
  "json_loads s =
     (case scan_value (2 * length s + 2) (skip_ws s) of
        None \<Rightarrow> None
      | Some (v, r) \<Rightarrow> if skip_ws r = [] then Some v else None)"

text \<open>
  \<open>py_str\<close> is \<^verbatim>\<open>str(v)\<close>, as an f-string prints a value: a text as it is, anything
  else as \<^verbatim>\<open>repr\<close> writes it. A float is printed as the text of its literal (Python
  prints the shortest text that reads back as the same float).
\<close>

definition is_printable :: "char \<Rightarrow> bool" where
  "is_printable c =
     (let n = (of_char c :: nat) in (32 \<le> n \<and> n < 127) \<or> (161 \<le> n \<and> n \<noteq> 173))"

definition hex_digit :: "nat \<Rightarrow> char" where
  "hex_digit d = (if d < 10 then char_of (48 + d) else char_of (87 + d))"

definition repr_char :: "char \<Rightarrow> char \<Rightarrow> string" where
  "repr_char quote c =
     (if c = quote \<or> c = CHR 0x5C then [CHR 0x5C, c]
      else if c = CHR 0x0A then [CHR 0x5C, CHR ''n'']
      else if c = CHR 0x0D then [CHR 0x5C, CHR ''r'']
      else if c = CHR 0x09 then [CHR 0x5C, CHR ''t'']
      else if is_printable c then [c]
      else [CHR 0x5C, CHR ''x'', hex_digit ((of_char c :: nat) div 16), hex_digit ((of_char c :: nat) mod 16)])"

definition repr_str :: "string \<Rightarrow> string" where
  "repr_str t =
     (let quote = (if CHR 0x27 \<in> set t \<and> CHR 0x22 \<notin> set t then CHR 0x22 else CHR 0x27)
      in [quote] @ concat (map (repr_char quote) t) @ [quote])"

fun join_str :: "string \<Rightarrow> string list \<Rightarrow> string" where
  "join_str sep [] = []"
| "join_str sep [x] = x"
| "join_str sep (x # y # ys) = x @ sep @ join_str sep (y # ys)"

fun py_repr :: "json \<Rightarrow> string"
  and py_repr_elems :: "json list \<Rightarrow> string list"
  and py_repr_items :: "dict \<Rightarrow> string list" where
  "py_repr JNull = ''None''"
| "py_repr (JBool b) = (if b then ''True'' else ''False'')"
| "py_repr (JInt i) = str_int i"
| "py_repr (JFloat t) = t"
| "py_repr (JStr t) = repr_str t"
| "py_repr (JArr xs) = ''['' @ join_str '', '' (py_repr_elems xs) @ '']''"
| "py_repr (JObj kvs) = [CHR 0x7B] @ join_str '', '' (py_repr_items kvs) @ [CHR 0x7D]"
| "py_repr_elems [] = []"
| "py_repr_elems (x # xs) = py_repr x # py_repr_elems xs"
| "py_repr_items [] = []"
| "py_repr_items ((k, v) # kvs) = (repr_str k @ '': '' @ py_repr v) # py_repr_items kvs"

definition py_str :: "json \<Rightarrow> string" where
  "py_str v = (case v of JStr t \<Rightarrow> t | _ \<Rightarrow> py_repr v)"

section \<open>Exceptions\<close>

text \<open>
  Every exception the code raises or catches is a value. \<open>str_exn\<close> is Python's
  \<^verbatim>\<open>str(e)\<close>; for \<^verbatim>\<open>HTTPException\<close> it is Starlette's \<^verbatim>\<open>"{status_code}: {detail}"\<close>.
\<close>

datatype exn =
    HTTPException nat string
  | Timeout string
  | JSONDecodeError string
  | KeyError string
  | OtherError string

fun str_exn :: "exn \<Rightarrow> string" where
  "str_exn (HTTPException code detail) = str_nat code @ '': '' @ detail"
| "str_exn (Timeout m) = m"
| "str_exn (JSONDecodeError m) = m"
| "str_exn (KeyError k) = [CHR 0x27] @ k @ [CHR 0x27]"
| "str_exn (OtherError m) = m"

section \<open>Data model\<close>

record Paper =
  title :: string
  authors :: "string list"
  summary :: string
  link :: string

datatype AutomationType =
    LITERATURE_REVIEW
  | RESEARCH_GAP_ANALYSIS
  | METHODOLOGY_COMPARISON
  | TREND_ANALYSIS
  | CUSTOM_WORKFLOW

fun type_value :: "AutomationType \<Rightarrow> string" where
  \<comment> \<open>the enum member's \<^verbatim>\<open>.value\<close>\<close>
  "type_value LITERATURE_REVIEW = ''literature_review''"
| "type_value RESEARCH_GAP_ANALYSIS = ''research_gap_analysis''"
| "type_value METHODOLOGY_COMPARISON = ''methodology_comparison''"
| "type_value TREND_ANALYSIS = ''trend_analysis''"
| "type_value CUSTOM_WORKFLOW = ''custom_workflow''"

record AutomationRequest =
  query :: string
  automation_type :: AutomationType
  max_results :: int
  model :: string
  custom_instructions :: "string option"
  include_summary :: bool
  include_comparison :: bool
  include_trends :: bool

record progress_dict =
  current_step :: int
  total_steps :: int
  step_name :: string

text \<open>
  One entry of \<^verbatim>\<open>active_workflows\<close>. The code builds it without the key \<^verbatim>\<open>"error"\<close>;
  the key is absent while \<open>error\<close> is \<open>None\<close>.
\<close>

record workflow =
  status :: string
  progress :: progress_dict
  results :: dict
  error :: "string option"
  created_at :: string
  updated_at :: string

datatype AutomationResponse =
  AutomationResponse bool string string "dict option" "string option" "progress_dict option"
  \<comment> \<open>success, workflow_id, status, results, error, progress\<close>

datatype WorkflowStatus =
  WorkflowStatus string string progress_dict "dict option" "string option" string string
  \<comment> \<open>workflow_id, status, progress, results, error, created_at, updated_at\<close>

section \<open>The registry of workflows\<close>



section \<open>The environment and the state of the service\<close>

text \<open>
  What the code takes from outside is a parameter. \<open>clock env n\<close> is what the
  \<open>n\<close>-th call of \<^verbatim>\<open>datetime.now()\<close> returns. \<open>arxiv_request\<close> is the body of the
  \<^verbatim>\<open>try\<close> in \<^verbatim>\<open>search_arxiv\<close> (the HTTP request and the reading of the Atom feed):
  the papers, or the exception raised there. \<open>ollama_chat\<close> is the call
  \<^verbatim>\<open>ollama.chat(...)['message']['content']\<close>: the prompt and the options are fixed
  by the task, the papers and the model, so the answer (or the exception) is a function
  of these. \<open>open_write\<close> tells whether writing the named file raises.
\<close>

datatype task = Summarize | Compare | GapAnalysis | TrendAnalysis | CustomAnalysis string

record env =
  clock :: "nat \<Rightarrow> datetime"
  arxiv_request :: "string \<Rightarrow> int \<Rightarrow> exn + Paper list"
  ollama_chat :: "task \<Rightarrow> string \<Rightarrow> Paper list \<Rightarrow> exn + string"
  open_write :: "string \<Rightarrow> exn option"

text \<open>
  The state: the fields of the \<^verbatim>\<open>summarizer\<close> object, the records of the logger, the
  files written under \<^verbatim>\<open>workflows/\<close>, and the tasks handed to \<^verbatim>\<open>BackgroundTasks\<close> that
  have not run yet. Two fields only observe the run: \<open>history\<close> receives the
  dictionary \<^verbatim>\<open>active_workflows\<close> after each statement that writes to it, and
  \<open>chat_calls\<close> the task of each call of the model.
\<close>

record sys =
  active_workflows :: "string \<rightharpoonup> workflow"
  current_model :: string
  ticks :: nat
  logs :: "(string \<times> string) list"
  files :: "string \<rightharpoonup> dict"
  background_tasks :: "(AutomationRequest \<times> string) list"
  history :: "(string \<rightharpoonup> workflow) list"
  chat_calls :: "task list"

definition datetime_now :: "env \<Rightarrow> sys \<Rightarrow> datetime \<times> sys" where
  "datetime_now e s = (clock e (ticks s), s\<lparr>ticks := Suc (ticks s)\<rparr>)"

definition logger :: "string \<Rightarrow> string \<Rightarrow> sys \<Rightarrow> sys" where
  "logger level msg s = s\<lparr>logs := logs s @ [(level, msg)]\<rparr>"

definition write_workflows :: "(string \<rightharpoonup> workflow) \<Rightarrow> sys \<Rightarrow> sys" where
  \<comment> \<open>a statement that writes to \<^verbatim>\<open>active_workflows\<close>\<close>
  "write_workflows m s = s\<lparr>active_workflows := m, history := history s @ [m]\<rparr>"

section \<open>Progress updates\<close>

definition update_workflow_progress ::
  "env \<Rightarrow> string \<Rightarrow> string \<Rightarrow> int \<Rightarrow> int \<Rightarrow> sys \<Rightarrow> sys" where
  \<comment> \<open>\<^verbatim>\<open>_update_workflow_progress(workflow_id, step_name, current, total)\<close>\<close>
  "update_workflow_progress e workflow_id name cur tot s =
     (case active_workflows s workflow_id of
        None \<Rightarrow> s
      | Some w \<Rightarrow>
          (let w1 = w\<lparr>progress := \<lparr>current_step = cur, total_steps = tot, step_name = name\<rparr>\<rparr>;
               s1 = write_workflows ((active_workflows s)(workflow_id \<mapsto> w1)) s;
               (t, s2) = datetime_now e s1
           in write_workflows ((active_workflows s2)(workflow_id \<mapsto> w1\<lparr>updated_at := isoformat t\<rparr>)) s2))"

section \<open>Searching arXiv\<close>

definition search_arxiv :: "env \<Rightarrow> string \<Rightarrow> int \<Rightarrow> sys \<Rightarrow> (exn + Paper list) \<times> sys" where
  "search_arxiv e q limit s =
     (case arxiv_request e q limit of
        Inr papers \<Rightarrow> (Inr papers, s)
      | Inl (Timeout m) \<Rightarrow> (Inl (HTTPException 408 ''arXiv API request timed out''), s)
      | Inl ex \<Rightarrow>
          (Inl (HTTPException 500 (''arXiv search failed: '' @ str_exn ex)),
           logger ''ERROR'' (''arXiv search error: '' @ str_exn ex) s))"

section \<open>The analyses\<close>

definition chat :: "env \<Rightarrow> task \<Rightarrow> string option \<Rightarrow> Paper list \<Rightarrow> sys \<Rightarrow> (exn + string) \<times> sys" where
  \<comment> \<open>the call of the model; \<^verbatim>\<open>model is None\<close> selects \<^verbatim>\<open>self.current_model\<close>\<close>
  "chat e t model_arg papers s =
     (let m = (case model_arg of None \<Rightarrow> current_model s | Some m \<Rightarrow> m)
      in (ollama_chat e t m papers, s\<lparr>chat_calls := chat_calls s @ [t]\<rparr>))"

definition summarize_with_ollama ::
  "env \<Rightarrow> Paper list \<Rightarrow> string option \<Rightarrow> sys \<Rightarrow> (exn + string) \<times> sys" where
  "summarize_with_ollama e papers model_arg s =
     (if papers = [] then (Inr ''No papers found for summarization.'', s)
      else case chat e Summarize model_arg papers s of
             (Inr content, s1) \<Rightarrow> (Inr (strip content), s1)
           | (Inl ex, s1) \<Rightarrow>
               (Inl (HTTPException 500 (''Summarization failed: '' @ str_exn ex)),
                logger ''ERROR'' (''Ollama summarization error: '' @ str_exn ex) s1))"


definition manual_item :: "Paper \<Rightarrow> json" where
  "manual_item paper =
     JObj [(''paper_title'', JStr (title paper)),
           (''research_focus'', JStr ''Extracted from analysis''),
           (''methodology'', JStr ''Based on paper content''),
           (''tools_techniques'', JStr ''Detailed in research''),
           (''advantages'', JStr ''Key strengths identified''),
           (''limitations'', JStr ''Areas for improvement'')]"

definition create_manual_comparison :: "Paper list \<Rightarrow> string \<Rightarrow> dict" where
  \<comment> \<open>\<^verbatim>\<open>_create_manual_comparison(papers, response_text)\<close>\<close>
  "create_manual_comparison papers response_text =
     [(''comparison_table'', JArr (map manual_item papers)),
      (''comparison_text'', JStr response_text)]"

definition validated_item :: "dict \<Rightarrow> json" where
  "validated_item item =
     JObj [(''paper_title'', dict_get item ''paper_title'' (JStr ''N/A'')),
           (''research_focus'', dict_get item ''research_focus'' (JStr ''N/A'')),
           (''methodology'', dict_get item ''methodology'' (JStr ''N/A'')),
           (''tools_techniques'', dict_get item ''tools_techniques'' (JStr ''N/A'')),
           (''advantages'', dict_get item ''advantages'' (JStr ''N/A'')),
           (''limitations'', dict_get item ''limitations'' (JStr ''N/A''))]"

fun validated_data :: "json list \<Rightarrow> json list" where
  \<comment> \<open>the loop over \<^verbatim>\<open>comparison_data\<close>: an item that is not a dictionary is skipped\<close>
  "validated_data [] = []"
| "validated_data (JObj item # rest) = validated_item item # validated_data rest"
| "validated_data (other # rest) = validated_data rest"

definition extract_comparison :: "Paper list \<Rightarrow> string \<Rightarrow> sys \<Rightarrow> dict \<times> sys" where
  \<comment> \<open>the inner \<^verbatim>\<open>try\<close> of \<^verbatim>\<open>compare_papers_with_ollama\<close> with its handler of
      \<^verbatim>\<open>JSONDecodeError\<close>; the decoder's message in the warning is not modelled\<close>
  "extract_comparison papers response_text s =
     (let start_idx = find_char (CHR 0x5B) response_text;
          end_idx = rfind_char (CHR 0x5D) response_text + 1
      in if start_idx \<noteq> - 1 \<and> end_idx \<noteq> - 1 then
           (case json_loads (slice response_text start_idx end_idx) of
              None \<Rightarrow>
                (create_manual_comparison papers response_text,
                 logger ''WARNING'' ''JSON parsing failed, creating manual comparison: '' s)
            | Some (JArr comparison_data) \<Rightarrow>
                ([(''comparison_table'', JArr (validated_data comparison_data)),
                  (''comparison_text'', JStr ''Comparison generated successfully.'')], s)
            | Some other \<Rightarrow> (create_manual_comparison papers response_text, s))
         else (create_manual_comparison papers response_text, s))"

definition compare_papers_with_ollama ::
  "env \<Rightarrow> Paper list \<Rightarrow> string option \<Rightarrow> sys \<Rightarrow> (exn + dict) \<times> sys" where
  "compare_papers_with_ollama e papers model_arg s =
     (if papers = [] then
        (Inr [(''comparison_table'', JArr []),
              (''comparison_text'', JStr ''No papers found for comparison.'')], s)
      else case chat e Compare model_arg papers s of
             (Inr content, s1) \<Rightarrow>
               (case extract_comparison papers (strip content) s1 of (d, s2) \<Rightarrow> (Inr d, s2))
           | (Inl ex, s1) \<Rightarrow>
               (Inl (HTTPException 500 (''Comparison failed: '' @ str_exn ex)),
                logger ''ERROR'' (''Ollama comparison error: '' @ str_exn ex) s1))"

definition analyze_research_gaps ::
  "env \<Rightarrow> Paper list \<Rightarrow> string option \<Rightarrow> sys \<Rightarrow> string \<times> sys" where
  "analyze_research_gaps e papers model_arg s =
     (if papers = [] then (''No papers found for gap analysis.'', s)
      else case chat e GapAnalysis model_arg papers s of
             (Inr content, s1) \<Rightarrow> (strip content, s1)
           | (Inl ex, s1) \<Rightarrow>
               (''Gap analysis failed: '' @ str_exn ex,
                logger ''ERROR'' (''Gap analysis error: '' @ str_exn ex) s1))"

definition analyze_trends ::
  "env \<Rightarrow> Paper list \<Rightarrow> string option \<Rightarrow> sys \<Rightarrow> string \<times> sys" where
  "analyze_trends e papers model_arg s =
     (if papers = [] then (''No papers found for trend analysis.'', s)
      else case chat e TrendAnalysis model_arg papers s of
             (Inr content, s1) \<Rightarrow> (strip content, s1)
           | (Inl ex, s1) \<Rightarrow>
               (''Trend analysis failed: '' @ str_exn ex,
                logger ''ERROR'' (''Trend analysis error: '' @ str_exn ex) s1))"

definition perform_custom_analysis ::
  "env \<Rightarrow> Paper list \<Rightarrow> string \<Rightarrow> string \<Rightarrow> sys \<Rightarrow> string \<times> sys" where
  \<comment> \<open>\<^verbatim>\<open>_perform_custom_analysis(papers, instructions, model)\<close>\<close>
  "perform_custom_analysis e papers instructions m s =
     (case chat e (CustomAnalysis instructions) (Some m) papers s of
        (Inr content, s1) \<Rightarrow> (strip content, s1)
      | (Inl ex, s1) \<Rightarrow> (''Custom analysis failed: '' @ str_exn ex, s1))"

section \<open>The local syntheses\<close>

definition nl :: string where
  "nl = [CHR 0x0A]"

definition extract_key_findings :: "string \<Rightarrow> string \<Rightarrow> string" where
  "extract_key_findings summary_text gap_analysis =
     ''Key findings synthesized from analysis:'' @ nl @ nl @ ''Summary Highlights:'' @ nl @
     take 500 summary_text @ ''...'' @ nl @ nl @ ''Gap Analysis Insights:'' @ nl @
     take 500 gap_analysis @ ''...''"

definition generate_recommendations :: "string \<Rightarrow> string" where
  "generate_recommendations gap_analysis =
     ''Research recommendations based on identified gaps:'' @ nl @ nl @ gap_analysis"

fun insight_lines :: "json list \<Rightarrow> exn + string" where
  \<comment> \<open>the loop of \<^verbatim>\<open>_extract_methodology_insights\<close>; \<^verbatim>\<open>item.get\<close> exists on dictionaries only\<close>
  "insight_lines [] = Inr []"
| "insight_lines (JObj item # rest) =
     (case insight_lines rest of
        Inl ex \<Rightarrow> Inl ex
      | Inr remaining \<Rightarrow>
          Inr (''- '' @ py_str (dict_get item ''paper_title'' (JStr ''Unknown'')) @ '': '' @
               py_str (dict_get item ''methodology'' (JStr ''N/A'')) @ nl @ remaining))"
| "insight_lines (other # rest) = Inl (OtherError ''AttributeError'')"

definition extract_methodology_insights :: "dict \<Rightarrow> exn + string" where
  \<comment> \<open>iterating a text or a dictionary yields texts, which have no \<^verbatim>\<open>get\<close>; other values
      cannot be iterated\<close>
  "extract_methodology_insights comparison =
     (case map_of comparison ''comparison_table'' of
        None \<Rightarrow> Inr (''Methodology Insights:'' @ nl @ nl)
      | Some (JArr items) \<Rightarrow>
          (case insight_lines items of
             Inl ex \<Rightarrow> Inl ex
           | Inr ls \<Rightarrow> Inr (''Methodology Insights:'' @ nl @ nl @ ls))
      | Some (JStr t) \<Rightarrow>
          if t = [] then Inr (''Methodology Insights:'' @ nl @ nl)
          else Inl (OtherError ''AttributeError'')
      | Some (JObj d) \<Rightarrow>
          if d = [] then Inr (''Methodology Insights:'' @ nl @ nl)
          else Inl (OtherError ''AttributeError'')
      | Some other \<Rightarrow> Inl (OtherError ''TypeError''))"

definition extract_future_directions :: "string \<Rightarrow> string" where
  "extract_future_directions trend_analysis =
     ''Future research directions based on trends:'' @ nl @ nl @ trend_analysis"

section \<open>Saving the results\<close>

definition save_workflow_results ::
  "env \<Rightarrow> string \<Rightarrow> string \<Rightarrow> dict \<Rightarrow> sys \<Rightarrow> string option \<times> sys" where
  \<comment> \<open>\<^verbatim>\<open>_save_workflow_results(workflow_id, query, results)\<close>\<close>
  "save_workflow_results e workflow_id q res s =
     (case datetime_now e s of
        (t, s1) \<Rightarrow>
          (let filename = ''workflows/'' @ replace_char CHR '' '' CHR ''_'' q @ ''_'' @
                          strftime_stamp t @ ''_'' @ workflow_id @ ''.json''
           in case open_write e filename of
                None \<Rightarrow> (Some filename, s1\<lparr>files := (files s1)(filename \<mapsto> res)\<rparr>)
              | Some ex \<Rightarrow>
                  (None, logger ''ERROR'' (''Error saving workflow results: '' @ str_exn ex) s1)))"

section \<open>The steps of each workflow type\<close>

definition execute_literature_review ::
  "env \<Rightarrow> string \<Rightarrow> Paper list \<Rightarrow> AutomationRequest \<Rightarrow> dict \<Rightarrow> sys \<Rightarrow> (exn + dict) \<times> sys" where
  "execute_literature_review e workflow_id papers request res s =
     (case summarize_with_ollama e papers (Some (model request))
             (update_workflow_progress e workflow_id ''Generating Summary'' 2 5 s) of
        (Inl ex, s1) \<Rightarrow> (Inl ex, s1)
      | (Inr summary_text, s1) \<Rightarrow>
          (case compare_papers_with_ollama e papers (Some (model request))
                  (update_workflow_progress e workflow_id ''Comparing Papers'' 3 5 s1) of
             (Inl ex, s2) \<Rightarrow> (Inl ex, s2)
           | (Inr comparison, s2) \<Rightarrow>
               (case analyze_research_gaps e papers (Some (model request))
                       (update_workflow_progress e workflow_id ''Analyzing Gaps'' 4 5 s2) of
                  (gap_analysis, s3) \<Rightarrow>
                    (Inr (AList.update ''key_findings''
                            (JStr (extract_key_findings summary_text gap_analysis))
                            (AList.update ''gap_analysis'' (JStr gap_analysis)
                              (AList.update ''comparison'' (JObj comparison)
                                (AList.update ''summary'' (JStr summary_text) res)))),
                     update_workflow_progress e workflow_id ''Finalizing'' 5 5 s3))))"

definition execute_gap_analysis ::
  "env \<Rightarrow> string \<Rightarrow> Paper list \<Rightarrow> AutomationRequest \<Rightarrow> dict \<Rightarrow> sys \<Rightarrow> (exn + dict) \<times> sys" where
  "execute_gap_analysis e workflow_id papers request res s =
     (case compare_papers_with_ollama e papers (Some (model request))
             (update_workflow_progress e workflow_id ''Comparing Papers'' 2 4 s) of
        (Inl ex, s1) \<Rightarrow> (Inl ex, s1)
      | (Inr comparison, s1) \<Rightarrow>
          (case analyze_research_gaps e papers (Some (model request))
                  (update_workflow_progress e workflow_id ''Analyzing Gaps'' 3 4 s1) of
             (gap_analysis, s2) \<Rightarrow>
               (Inr (AList.update ''recommendations''
                       (JStr (generate_recommendations gap_analysis))
                       (AList.update ''gap_analysis'' (JStr gap_analysis)
                         (AList.update ''comparison'' (JObj comparison) res))),
                update_workflow_progress e workflow_id ''Generating Recommendations'' 4 4 s2)))"

definition execute_methodology_comparison ::
  "env \<Rightarrow> string \<Rightarrow> Paper list \<Rightarrow> AutomationRequest \<Rightarrow> dict \<Rightarrow> sys \<Rightarrow> (exn + dict) \<times> sys" where
  "execute_methodology_comparison e workflow_id papers request res s =
     (case compare_papers_with_ollama e papers (Some (model request))
             (update_workflow_progress e workflow_id ''Detailed Comparison'' 2 3 s) of
        (Inl ex, s1) \<Rightarrow> (Inl ex, s1)
      | (Inr comparison, s1) \<Rightarrow>
          (let s2 = update_workflow_progress e workflow_id ''Methodology Analysis'' 3 3 s1
           in case extract_methodology_insights comparison of
                Inl ex \<Rightarrow> (Inl ex, s2)
              | Inr insights \<Rightarrow>
                  (Inr (AList.update ''methodology_insights'' (JStr insights)
                          (AList.update ''comparison'' (JObj comparison) res)), s2)))"

definition execute_trend_analysis ::
  "env \<Rightarrow> string \<Rightarrow> Paper list \<Rightarrow> AutomationRequest \<Rightarrow> dict \<Rightarrow> sys \<Rightarrow> (exn + dict) \<times> sys" where
  "execute_trend_analysis e workflow_id papers request res s =
     (case analyze_trends e papers (Some (model request))
             (update_workflow_progress e workflow_id ''Trend Analysis'' 2 3 s) of
        (trend_analysis, s1) \<Rightarrow>
          (Inr (AList.update ''future_directions''
                  (JStr (extract_future_directions trend_analysis))
                  (AList.update ''trend_analysis'' (JStr trend_analysis) res)),
           update_workflow_progress e workflow_id ''Future Directions'' 3 3 s1))"

definition execute_custom_workflow ::
  "env \<Rightarrow> string \<Rightarrow> Paper list \<Rightarrow> AutomationRequest \<Rightarrow> dict \<Rightarrow> sys \<Rightarrow> (exn + dict) \<times> sys" where
  \<comment> \<open>\<^verbatim>\<open>if request.custom_instructions\<close>: neither \<^verbatim>\<open>None\<close> nor the empty text\<close>
  "execute_custom_workflow e workflow_id papers request res s =
     (case custom_instructions request of
        None \<Rightarrow> (Inr res, s)
      | Some instructions \<Rightarrow>
          if instructions = [] then (Inr res, s)
          else case perform_custom_analysis e papers instructions (model request)
                      (update_workflow_progress e workflow_id ''Custom Analysis'' 2 3 s) of
                 (custom_analysis, s1) \<Rightarrow>
                   (Inr (AList.update ''custom_analysis'' (JStr custom_analysis) res), s1))"

section \<open>The execution routine\<close>

definition paper_dict :: "Paper \<Rightarrow> json" where
  \<comment> \<open>\<^verbatim>\<open>paper.dict()\<close>\<close>
  "paper_dict p =
     JObj [(''title'', JStr (title p)), (''authors'', JArr (map JStr (authors p))),
           (''summary'', JStr (summary p)), (''link'', JStr (link p))]"

definition initial_workflow :: "datetime \<Rightarrow> datetime \<Rightarrow> workflow" where
  "initial_workflow t1 t2 =
     \<lparr>status = ''running'',
      progress = \<lparr>current_step = 0, total_steps = 0, step_name = ''Initializing''\<rparr>,
      results = [], error = None, created_at = isoformat t1, updated_at = isoformat t2\<rparr>"

definition dispatch ::
  "env \<Rightarrow> string \<Rightarrow> Paper list \<Rightarrow> AutomationRequest \<Rightarrow> dict \<Rightarrow> sys \<Rightarrow> (exn + dict) \<times> sys" where
  \<comment> \<open>the \<^verbatim>\<open>if\<close>/\<^verbatim>\<open>elif\<close> chain on \<^verbatim>\<open>request.automation_type\<close>\<close>
  "dispatch e workflow_id papers request res s =
     (case automation_type request of
        LITERATURE_REVIEW \<Rightarrow> execute_literature_review e workflow_id papers request res s
      | RESEARCH_GAP_ANALYSIS \<Rightarrow> execute_gap_analysis e workflow_id papers request res s
      | METHODOLOGY_COMPARISON \<Rightarrow> execute_methodology_comparison e workflow_id papers request res s
      | TREND_ANALYSIS \<Rightarrow> execute_trend_analysis e workflow_id papers request res s
      | CUSTOM_WORKFLOW \<Rightarrow> execute_custom_workflow e workflow_id papers request res s)"

definition workflow_body ::
  "env \<Rightarrow> AutomationRequest \<Rightarrow> string \<Rightarrow> sys \<Rightarrow> (exn + unit) \<times> sys" where
  \<comment> \<open>the \<^verbatim>\<open>try\<close> block of \<^verbatim>\<open>execute_automation_workflow\<close>; \<^verbatim>\<open>d[k].update(...)\<close> raises
      \<^verbatim>\<open>KeyError\<close> when \<^verbatim>\<open>k\<close> is not a key\<close>
  "workflow_body e request workflow_id s =
     (case datetime_now e s of
        (t1, s1) \<Rightarrow>
      case datetime_now e s1 of
        (t2, s2) \<Rightarrow>
      case search_arxiv e (query request) (max_results request)
             (update_workflow_progress e workflow_id ''Searching arXiv'' 1 5
               (write_workflows ((active_workflows s2)(workflow_id \<mapsto> initial_workflow t1 t2)) s2)) of
        (Inl ex, s3) \<Rightarrow> (Inl ex, s3)
      | (Inr papers, s3) \<Rightarrow>
          if papers = [] then
            (case active_workflows s3 workflow_id of
               None \<Rightarrow> (Inl (KeyError workflow_id), s3)
             | Some w \<Rightarrow>
                 (Inr (),
                  write_workflows
                    ((active_workflows s3)(workflow_id \<mapsto>
                       w\<lparr>status := ''completed'',
                         error := Some ''No papers found for the given query''\<rparr>)) s3))
          else
            (case dispatch e workflow_id papers request
                    [(''papers_found'', JInt (int (length papers))),
                     (''papers'', JArr (map paper_dict papers)),
                     (''workflow_type'', JStr (type_value (automation_type request)))] s3 of
               (Inl ex, s4) \<Rightarrow> (Inl ex, s4)
             | (Inr res, s4) \<Rightarrow>
                 (case save_workflow_results e workflow_id (query request) res s4 of
                    (saved, s5) \<Rightarrow>
                      (case active_workflows s5 workflow_id of
                         None \<Rightarrow> (Inl (KeyError workflow_id), s5)
                       | Some w \<Rightarrow>
                           (case datetime_now e s5 of
                              (t3, s6) \<Rightarrow>
                                (Inr (),
                                 write_workflows
                                   ((active_workflows s6)(workflow_id \<mapsto>
                                      w\<lparr>status := ''completed'', results := res,
                                        updated_at := isoformat t3\<rparr>)) s6))))))"

definition execute_automation_workflow ::
  "env \<Rightarrow> AutomationRequest \<Rightarrow> string \<Rightarrow> sys \<Rightarrow> (exn + unit) \<times> sys" where
  \<comment> \<open>the handler \<^verbatim>\<open>except Exception\<close> around the body; what it raises itself leaves the
      routine\<close>
  "execute_automation_workflow e request workflow_id s =
     (case workflow_body e request workflow_id s of
        (Inr u, s1) \<Rightarrow> (Inr u, s1)
      | (Inl ex, s1) \<Rightarrow>
          (let s2 = logger ''ERROR'' (''Workflow execution error: '' @ str_exn ex) s1
           in case active_workflows s2 workflow_id of
                None \<Rightarrow> (Inl (KeyError workflow_id), s2)
              | Some w \<Rightarrow>
                  (case datetime_now e s2 of
                     (t, s3) \<Rightarrow>
                       (Inr (),
                        write_workflows
                          ((active_workflows s3)(workflow_id \<mapsto>
                             w\<lparr>status := ''failed'', error := Some (str_exn ex),
                               updated_at := isoformat t\<rparr>)) s3))))"

section \<open>The endpoints\<close>

text \<open>
  \<^verbatim>\<open>POST /api/automation/execute\<close>. \<open>uuid\<close> is the text of the \<^verbatim>\<open>uuid.uuid4()\<close> drawn
  by the call. \<^verbatim>\<open>background_tasks.add_task\<close> queues the routine; FastAPI runs the queue
  after the response has been sent. Nothing in the body of the \<^verbatim>\<open>try\<close> raises, so its
  handler has no branch here.
\<close>

definition execute_endpoint :: "string \<Rightarrow> AutomationRequest \<Rightarrow> sys \<Rightarrow> AutomationResponse \<times> sys" where
  "execute_endpoint uuid request s =
     (let workflow_id = take 8 uuid
      in (AutomationResponse True workflow_id ''started'' None None
            (Some \<lparr>current_step = 0, total_steps = 0, step_name = ''Initializing''\<rparr>),
          s\<lparr>background_tasks := background_tasks s @ [(request, workflow_id)]\<rparr>))"

definition run_background_task :: "env \<Rightarrow> sys \<Rightarrow> sys" where
  \<comment> \<open>the server runs the oldest queued task\<close>
  "run_background_task e s =
     (case background_tasks s of
        [] \<Rightarrow> s
      | (request, workflow_id) # rest \<Rightarrow>
          snd (execute_automation_workflow e request workflow_id (s\<lparr>background_tasks := rest\<rparr>)))"

definition get_workflow_status :: "string \<Rightarrow> sys \<Rightarrow> exn + WorkflowStatus" where
  \<comment> \<open>\<^verbatim>\<open>GET /api/automation/status/{workflow_id}\<close>; \<^verbatim>\<open>results\<close> is always a key of an entry\<close>
  "get_workflow_status workflow_id s =
     (case active_workflows s workflow_id of
        None \<Rightarrow> Inl (HTTPException 404 ''Workflow not found'')
      | Some w \<Rightarrow>
          Inr (WorkflowStatus workflow_id (status w) (progress w) (Some (results w)) (error w)
                 (created_at w) (updated_at w)))"

section \<open>Observing one run, and sample inputs\<close>

text \<open>
  \<open>lifetime\<close> is what one run of the execution routine for \<open>workflow_id\<close> makes of its
  entry: the entry after each write to \<^verbatim>\<open>active_workflows\<close>, in order.
  \<open>progress_reports\<close> keeps the progress of these entries, each report once.
\<close>

definition lifetime :: "env \<Rightarrow> AutomationRequest \<Rightarrow> string \<Rightarrow> sys \<Rightarrow> workflow option list" where
  "lifetime e request workflow_id s =
     map (\<lambda>m. m workflow_id)
       (drop (length (history s))
          (history (snd (execute_automation_workflow e request workflow_id s))))"

definition terminal :: "workflow \<Rightarrow> bool" where
  "terminal w = (status w = ''completed'' \<or> status w = ''failed'')"


text \<open>
  \<open>init_summarizer\<close> is the state after \<^verbatim>\<open>summarizer = ArxivSummarizer(client)\<close>. The
  sample environment answers every search with \<open>found\<close>, the model's task \<open>t\<close> with
  \<open>answers t\<close>, and every write with \<open>written\<close>.
\<close>

definition init_summarizer :: sys where
  "init_summarizer =
     \<lparr>active_workflows = Map.empty, current_model = ''llama3.2:3b'', ticks = 0, logs = [],
      files = Map.empty, background_tasks = [], history = [], chat_calls = []\<rparr>"

definition sample_clock :: "nat \<Rightarrow> datetime" where
  "sample_clock n =
     \<lparr>year = 2025, month = 3, day = 14, hour = 9, minute = n div 60, second = n mod 60,
      microsecond = 0\<rparr>"

definition sample_paper :: Paper where
  "sample_paper =
     \<lparr>title = ''Attention'', authors = [''A. Author''], summary = ''An abstract.'',
      link = ''http://arxiv.org/abs/1''\<rparr>"

definition sample_env :: "(task \<Rightarrow> exn + string) \<Rightarrow> (exn + Paper list) \<Rightarrow> exn option \<Rightarrow> env" where
  "sample_env answers found written =
     \<lparr>clock = sample_clock, arxiv_request = (\<lambda>q n. found),
      ollama_chat = (\<lambda>t m ps. answers t), open_write = (\<lambda>f. written)\<rparr>"

definition sample_request :: "AutomationType \<Rightarrow> AutomationRequest" where
  "sample_request ty =
     \<lparr>query = ''graph neural networks'', automation_type = ty, max_results = 10,
      model = ''llama3.2:3b'', custom_instructions = None, include_summary = True,
      include_comparison = True, include_trends = False\<rparr>"

text \<open>
  Named samples: a workflow ID and the UUID it is cut from; models that answer every task,
  or fail on the compare task or on the gap analysis; and the environments built from
  them, one of which finds no paper and one of which cannot write its file.
\<close>

definition sample_id :: string where
  "sample_id = ''0a1b2c3d''"

definition sample_uuid :: string where
  "sample_uuid = ''0a1b2c3d-4e5f-4a6b-8c7d-9e0f1a2b3c4d''"

definition all_answer :: "task \<Rightarrow> exn + string" where
  "all_answer t = Inr ''fine''"

definition compare_fails :: "task \<Rightarrow> exn + string" where
  "compare_fails t = (if t = Compare then Inl (OtherError ''connection refused'') else Inr ''fine'')"

definition gap_analysis_fails :: "task \<Rightarrow> exn + string" where
  "gap_analysis_fails t =
     (if t = GapAnalysis then Inl (OtherError ''connection refused'') else Inr ''fine'')"

definition review_env :: env where
  "review_env = sample_env all_answer (Inr [sample_paper]) None"

definition no_papers_env :: env where
  "no_papers_env = sample_env all_answer (Inr []) None"

definition compare_fails_env :: env where
  "compare_fails_env = sample_env compare_fails (Inr [sample_paper]) None"

definition gap_analysis_fails_env :: env where
  "gap_analysis_fails_env = sample_env gap_analysis_fails (Inr [sample_paper]) None"






section \<open>Notions used in the proofs\<close>

text \<open>
  \<open>advances workflow_id k s s'\<close>: from \<open>s\<close> to \<open>s'\<close> the entry of \<open>workflow_id\<close> exists, every
  write in between changed its progress and time stamp only, the steps written never
  decrease and stay at most \<open>k\<close> and at most their total. \<open>same_workflows\<close>: nothing was
  written. \<open>completes\<close>: the writes since \<open>s\<close> are the registration \<open>w0\<close>, then running
  entries, then one last entry \<open>wend\<close> that is failed or completed; \<open>np\<close> tells whether the
  search found no paper. \<open>registered\<close> is the state after the first statement of the routine.
\<close>

definition advances :: "string \<Rightarrow> int \<Rightarrow> sys \<Rightarrow> sys \<Rightarrow> bool" where
  "advances wid k s s' \<longleftrightarrow>
     (\<exists>w hs ws. active_workflows s wid = Some w \<and> history s' = history s @ hs \<and>
        map (\<lambda>m. m wid) hs = map Some ws \<and>
        active_workflows s' wid = Some (last (w # ws)) \<and>
        (\<forall>w'\<in>set ws. status w' = status w \<and> error w' = error w \<and> results w' = results w \<and>
                      current_step (progress w') \<le> total_steps (progress w')) \<and>
        sorted (map (\<lambda>w. current_step (progress w)) (w # ws)) \<and>
        (\<forall>w'\<in>set (w # ws). current_step (progress w') \<le> k))"

definition same_workflows :: "sys \<Rightarrow> sys \<Rightarrow> bool" where
  "same_workflows s s' \<longleftrightarrow> active_workflows s' = active_workflows s \<and> history s' = history s"

definition no_papers_note :: string where
  "no_papers_note = ''No papers found for the given query''"

definition run_shape :: "bool \<Rightarrow> workflow \<Rightarrow> workflow list \<Rightarrow> workflow \<Rightarrow> bool" where
  "run_shape np w0 ws wend \<longleftrightarrow>
     (\<forall>w\<in>set (w0 # ws). status w = ''running'' \<and> error w = None \<and> results w = [] \<and>
        current_step (progress w) \<le> total_steps (progress w)) \<and>
     sorted (map (\<lambda>w. current_step (progress w)) (w0 # ws @ [wend])) \<and>
     current_step (progress wend) \<le> total_steps (progress wend) \<and>
     (status wend = ''failed'' \<and> error wend \<noteq> None \<and> results wend = [] \<or>
      status wend = ''completed'' \<and> error wend = None \<or>
      np \<and> status wend = ''completed'' \<and> error wend = Some no_papers_note \<and> results wend = [])"

definition completes :: "string \<Rightarrow> bool \<Rightarrow> workflow \<Rightarrow> sys \<Rightarrow> sys \<Rightarrow> bool" where
  "completes wid np w0 s sF \<longleftrightarrow>
     (\<exists>ws wend. map (\<lambda>m. m wid) (drop (length (history s)) (history sF)) = map Some (w0 # ws @ [wend]) \<and>
        run_shape np w0 ws wend \<and> active_workflows sF wid = Some wend)"

definition registered :: "env \<Rightarrow> string \<Rightarrow> sys \<Rightarrow> sys" where
  "registered e wid s =
     write_workflows
       ((active_workflows s)(wid \<mapsto> initial_workflow (clock e (ticks s)) (clock e (Suc (ticks s)))))
       (s\<lparr>ticks := Suc (Suc (ticks s))\<rparr>)"

text \<open>
  \<open>view\<close> keeps of an entry what the claims speak of: status, progress, results and
  error. \<open>view_of\<close> is the view of the current entry, \<open>seen\<close> the views of the entry
  after each write so far. \<open>finish\<close> is the last write of a run, with the three changes
  the routine makes there. \<open>comparison_of\<close> is what the compare step makes of the
  model's answer.
\<close>

definition view :: "workflow \<Rightarrow> string \<times> progress_dict \<times> dict \<times> string option" where
  "view w = (status w, progress w, results w, error w)"

definition view_of :: "sys \<Rightarrow> string \<Rightarrow> (string \<times> progress_dict \<times> dict \<times> string option) option" where
  "view_of s wid = map_option view (active_workflows s wid)"

definition seen :: "string \<Rightarrow> sys \<Rightarrow> (string \<times> progress_dict \<times> dict \<times> string option) option list" where
  "seen wid s = map (\<lambda>m. map_option view (m wid)) (history s)"

definition with_progress ::
  "progress_dict \<Rightarrow> string \<times> progress_dict \<times> dict \<times> string option \<Rightarrow>
   string \<times> progress_dict \<times> dict \<times> string option" where
  "with_progress p v = (fst v, p, snd (snd v))"

definition comparison_of :: "Paper list \<Rightarrow> string \<Rightarrow> dict" where
  "comparison_of papers body = fst (extract_comparison papers body init_summarizer)"

type_synonym entry_view = "string \<times> progress_dict \<times> dict \<times> string option"

definition finish :: "string \<Rightarrow> (workflow \<Rightarrow> workflow) \<Rightarrow> sys \<Rightarrow> sys \<Rightarrow> (exn + unit) \<times> sys" where
  "finish wid g s s' =
     (case active_workflows s wid of
        None \<Rightarrow> (Inl (KeyError wid), s)
      | Some w \<Rightarrow> (Inr (), write_workflows ((active_workflows s')(wid \<mapsto> g w)) s'))"

definition mark_no_papers :: "workflow \<Rightarrow> workflow" where
  "mark_no_papers w = w\<lparr>status := ''completed'', error := Some ''No papers found for the given query''\<rparr>"

definition mark_completed :: "dict \<Rightarrow> string \<Rightarrow> workflow \<Rightarrow> workflow" where
  "mark_completed res u w = w\<lparr>status := ''completed'', results := res, updated_at := u\<rparr>"

definition mark_failed :: "string \<Rightarrow> string \<Rightarrow> workflow \<Rightarrow> workflow" where
  "mark_failed msg u w = w\<lparr>status := ''failed'', error := Some msg, updated_at := u\<rparr>"

definition step :: "int \<Rightarrow> int \<Rightarrow> string \<Rightarrow> progress_dict" where
  "step k t n = \<lparr>current_step = k, total_steps = t, step_name = n\<rparr>"

definition running_at :: "progress_dict \<Rightarrow> entry_view option" where
  "running_at q = Some (''running'', q, [], None)"





section \<open>Properties\<close>

subsection \<open>The decoder's fuel\<close>

text \<open>
  Every value read takes at least one character, and a call for a value, an array or an
  object that succeeds with some fuel succeeds with the same result with any fuel of at
  least twice the length of what it reads. So \<open>json_loads\<close> answers \<open>None\<close> only
  for a text that no amount of recursion decodes.
\<close>

lemma skip_ws_length: "length (skip_ws xs) \<le> length xs"
  by (simp add: skip_ws_def length_dropWhile_le)

lemma scan_string_shorter: "scan_string acc cs = Some (t, r) \<Longrightarrow> length r < length cs"
proof (induction acc cs rule: scan_string.induct)
  case (1 acc)
  then show ?case by simp
next
  case (2 acc c cs)
  show ?case
  proof (cases "c = CHR 0x22")
    case True
    with "2.prems" show ?thesis by simp
  next
    case nq: False
    show ?thesis
    proof (cases "c = CHR 0x5C")
      case True
      show ?thesis
      proof (cases cs)
        case Nil
        with "2.prems" nq True show ?thesis by simp
      next
        case (Cons x cs')
        show ?thesis
        proof (cases "x = CHR ''u''")
          case u: True
          from "2.prems" nq True Cons u obtain n where
            h: "\<not> length cs' < 4" "hex_number 0 (take 4 cs') = Some n" "n < 256"
               "scan_string (acc @ [char_of n]) (drop 4 cs') = Some (t, r)"
            by (simp split: if_splits option.splits)
          from "2.IH"(1) [OF nq True Cons u h(1) h(2) h(3) h(4)]
          have "length r < length (drop 4 cs')" .
          with Cons show ?thesis by simp
        next
          case nu: False
          from "2.prems" nq True Cons nu obtain u where
            h: "unescape x = Some u" "scan_string (acc @ [u]) cs' = Some (t, r)"
            by (simp split: if_splits option.splits)
          from "2.IH"(2) [OF nq True Cons nu h(1) h(2)]
          have "length r < length cs'" .
          with Cons show ?thesis by simp
        qed
      qed
    next
      case nb: False
      from "2.prems" nq nb have h: "\<not> (of_char c :: nat) < 32" "scan_string (acc @ [c]) cs = Some (t, r)"
        by (simp_all split: if_splits)
      from "2.IH"(3) [OF nq nb h(1) h(2)] show ?thesis by simp
    qed
  qed
qed


lemma if_None_SomeE:
  "(if c then None else y) = Some z \<Longrightarrow> (\<not> c \<Longrightarrow> y = Some z \<Longrightarrow> P) \<Longrightarrow> P"
  by (cases c) simp_all

lemma if_same_restE:
  "(if c then Some (a, x) else Some (b, x)) = Some (v, r) \<Longrightarrow> (r = x \<Longrightarrow> P) \<Longrightarrow> P"
  by (cases c) simp_all

lemma scan_number_shorter:
  assumes a: "scan_number cs = Some (v, r)"
  shows "length r < length cs"
proof -
  define r0 where "r0 = (if cs \<noteq> [] \<and> hd cs = CHR ''-'' then tl cs else cs)"
  define ds where "ds = takeWhile is_digit r0"
  define ip where "ip = (if hd ds = CHR ''0'' then ''0'' else ds)"
  have key: "ds \<noteq> [] \<and> (\<exists>k j. r = drop k (drop j (drop (length ip) r0)))"
    using a
    unfolding scan_number_def Let_def r0_def [symmetric] ds_def [symmetric] ip_def [symmetric]
    by (elim if_None_SomeE if_same_restE) blast
  then have ds: "ds \<noteq> []" by simp
  have ip1: "0 < length ip" using ds by (simp add: ip_def)
  have "length ds \<le> length r0" unfolding ds_def by (rule length_takeWhile_le)
  moreover have "length ip \<le> length ds" using ds by (cases ds) (simp_all add: ip_def)
  ultimately have ip2: "length ip \<le> length r0" by simp
  have r0: "length r0 \<le> length cs" by (simp add: r0_def)
  from key obtain k j where "r = drop k (drop j (drop (length ip) r0))" by blast
  then have "length r \<le> length r0 - length ip" by simp
  with ip1 ip2 r0 show ?thesis by linarith
qed

lemma starts_with_shorter:
  assumes "starts_with p cs" and "p \<noteq> []"
  shows "length (drop (length p) cs) < length cs"
proof -
  from assms(1) have "length (take (length p) cs) = length p" by (simp add: starts_with_def)
  then have "length p \<le> length cs" by simp
  with assms(2) show ?thesis by (cases p) simp_all
qed

lemma scan_atom_shorter:
  assumes a: "scan_atom cs = Some (v, r)"
  shows "length r < length cs"
proof -
  have n: "length (drop 4 cs) < length cs" if "starts_with ''null'' cs"
    using starts_with_shorter [OF that] by simp
  have t: "length (drop 4 cs) < length cs" if "starts_with ''true'' cs"
    using starts_with_shorter [OF that] by simp
  have f: "length (drop 5 cs) < length cs" if "starts_with ''false'' cs"
    using starts_with_shorter [OF that] by simp
  have nan: "length (drop 3 cs) < length cs" if "starts_with ''NaN'' cs"
    using starts_with_shorter [OF that] by simp
  have inf: "length (drop 8 cs) < length cs" if "starts_with ''Infinity'' cs"
    using starts_with_shorter [OF that] by simp
  have minf: "length (drop 9 cs) < length cs" if "starts_with ''-Infinity'' cs"
    using starts_with_shorter [OF that] by simp
  show ?thesis
  proof (cases "scan_number cs")
    case None
    with a n t f nan inf minf show ?thesis
      unfolding scan_atom_def by (auto split: if_splits)
  next
    case (Some p)
    with a n t f scan_number_shorter [of cs v r] show ?thesis
      unfolding scan_atom_def by (auto split: if_splits)
  qed
qed

lemma scan_value_step:
  assumes arr: "\<And>acc cs v r. scan_array n acc cs = Some (v, r) \<Longrightarrow>
             length r < length cs \<and> (\<forall>m. 2 * length cs + 1 \<le> m \<longrightarrow> scan_array m acc cs = Some (v, r))"
    and obj: "\<And>acc cs v r. scan_object n acc cs = Some (v, r) \<Longrightarrow>
             length r < length cs \<and> (\<forall>m. 2 * length cs + 1 \<le> m \<longrightarrow> scan_object m acc cs = Some (v, r))"
    and a: "scan_value (Suc n) cs = Some (v, r)"
  shows "length r < length cs \<and> (\<forall>m. 2 * length cs \<le> m \<longrightarrow> scan_value m cs = Some (v, r))"
proof (cases cs)
  case Nil
  with a show ?thesis by simp
next
  case (Cons c r0)
  have len: "length (skip_ws r0) \<le> length r0" by (rule skip_ws_length)
  have fuel: "\<exists>k. m = Suc k \<and> 2 * length (skip_ws r0) + 1 \<le> k" if "2 * length cs \<le> m" for m
    using that len Cons by (cases m) simp_all
  consider (str) "c = CHR 0x22" | (obj) "c \<noteq> CHR 0x22" "c = CHR 0x7B"
    | (arr) "c \<noteq> CHR 0x22" "c \<noteq> CHR 0x7B" "c = CHR 0x5B"
    | (atom) "c \<noteq> CHR 0x22" "c \<noteq> CHR 0x7B" "c \<noteq> CHR 0x5B" by blast
  then show ?thesis
  proof cases
    case str
    with a Cons obtain t where t: "scan_string [] r0 = Some (t, r)" "v = JStr t"
      by (auto split: option.splits)
    from scan_string_shorter [OF t(1)] Cons have "length r < length cs" by simp
    moreover have "scan_value m cs = Some (v, r)" if "2 * length cs \<le> m" for m
      using fuel [OF that] t str Cons by auto
    ultimately show ?thesis by blast
  next
    case obj
    from a Cons obj obtain d r' where d: "skip_ws r0 = d # r'"
      by (cases "skip_ws r0") simp_all
    show ?thesis
    proof (cases "d = CHR 0x7D")
      case True
      with a Cons obj d have e: "v = JObj []" "r = r'" by simp_all
      from d len e Cons have "length r < length cs" by simp
      moreover have "scan_value m cs = Some (v, r)" if "2 * length cs \<le> m" for m
        using fuel [OF that] obj Cons d True e by auto
      ultimately show ?thesis by blast
    next
      case False
      with a Cons obj d have s: "scan_object n [] (skip_ws r0) = Some (v, r)" by simp
      from assms(2) [OF s] have i: "length r < length (skip_ws r0)"
        "\<And>m. 2 * length (skip_ws r0) + 1 \<le> m \<Longrightarrow> scan_object m [] (skip_ws r0) = Some (v, r)"
        by blast+
      from i(1) len Cons have "length r < length cs" by simp
      moreover have "scan_value m cs = Some (v, r)" if "2 * length cs \<le> m" for m
      proof -
        from fuel [OF that] obtain k where k: "m = Suc k" "2 * length (skip_ws r0) + 1 \<le> k" by blast
        from i(2) [OF k(2)] k(1) obj Cons d False show ?thesis by simp
      qed
      ultimately show ?thesis by blast
    qed
  next
    case arr
    from a Cons arr obtain d r' where d: "skip_ws r0 = d # r'"
      by (cases "skip_ws r0") simp_all
    show ?thesis
    proof (cases "d = CHR 0x5D")
      case True
      with a Cons arr d have e: "v = JArr []" "r = r'" by simp_all
      from d len e Cons have "length r < length cs" by simp
      moreover have "scan_value m cs = Some (v, r)" if "2 * length cs \<le> m" for m
        using fuel [OF that] arr Cons d True e by auto
      ultimately show ?thesis by blast
    next
      case False
      with a Cons arr d have s: "scan_array n [] (skip_ws r0) = Some (v, r)" by simp
      from assms(1) [OF s] have i: "length r < length (skip_ws r0)"
        "\<And>m. 2 * length (skip_ws r0) + 1 \<le> m \<Longrightarrow> scan_array m [] (skip_ws r0) = Some (v, r)"
        by blast+
      from i(1) len Cons have "length r < length cs" by simp
      moreover have "scan_value m cs = Some (v, r)" if "2 * length cs \<le> m" for m
      proof -
        from fuel [OF that] obtain k where k: "m = Suc k" "2 * length (skip_ws r0) + 1 \<le> k" by blast
        from i(2) [OF k(2)] k(1) arr Cons d False show ?thesis by simp
      qed
      ultimately show ?thesis by blast
    qed
  next
    case atom
    with a Cons have s: "scan_atom cs = Some (v, r)" by simp
    from scan_atom_shorter [OF s] have "length r < length cs" .
    moreover have "scan_value m cs = Some (v, r)" if "2 * length cs \<le> m" for m
      using fuel [OF that] atom Cons s by auto
    ultimately show ?thesis by blast
  qed
qed

lemma scan_array_step:
  assumes val: "\<And>cs v r. scan_value n cs = Some (v, r) \<Longrightarrow>
             length r < length cs \<and> (\<forall>m. 2 * length cs \<le> m \<longrightarrow> scan_value m cs = Some (v, r))"
    and arr: "\<And>acc cs v r. scan_array n acc cs = Some (v, r) \<Longrightarrow>
             length r < length cs \<and> (\<forall>m. 2 * length cs + 1 \<le> m \<longrightarrow> scan_array m acc cs = Some (v, r))"
    and a: "scan_array (Suc n) acc cs = Some (v, r)"
  shows "length r < length cs \<and> (\<forall>m. 2 * length cs + 1 \<le> m \<longrightarrow> scan_array m acc cs = Some (v, r))"
proof -
  from a obtain v1 r1 where s1: "scan_value n cs = Some (v1, r1)"
    by (cases "scan_value n cs") auto
  from val [OF s1] have i1: "length r1 < length cs"
    "\<And>m. 2 * length cs \<le> m \<Longrightarrow> scan_value m cs = Some (v1, r1)" by blast+
  from a s1 obtain d r' where d: "skip_ws r1 = d # r'"
    by (cases "skip_ws r1") simp_all
  have len1: "length (skip_ws r1) \<le> length r1" by (rule skip_ws_length)
  have len2: "length (skip_ws r') \<le> length r'" by (rule skip_ws_length)
  from d len1 have r': "length r' < length r1" by simp
  have fuel: "\<exists>k. m = Suc k \<and> 2 * length cs \<le> k" if "2 * length cs + 1 \<le> m" for m
    using that by (cases m) simp_all
  show ?thesis
  proof (cases "d = CHR 0x5D")
    case True
    with a s1 d have e: "v = JArr (acc @ [v1])" "r = r'" by simp_all
    from e r' i1(1) have "length r < length cs" by simp
    moreover have "scan_array m acc cs = Some (v, r)" if "2 * length cs + 1 \<le> m" for m
    proof -
      from fuel [OF that] obtain k where k: "m = Suc k" "2 * length cs \<le> k" by blast
      from i1(2) [OF k(2)] k(1) d True e show ?thesis by simp
    qed
    ultimately show ?thesis by blast
  next
    case False
    with a s1 d have c: "d = CHR '',''" by (simp split: if_splits)
    with a s1 d False have s2: "scan_array n (acc @ [v1]) (skip_ws r') = Some (v, r)" by simp
    from arr [OF s2] have i2: "length r < length (skip_ws r')"
      "\<And>m. 2 * length (skip_ws r') + 1 \<le> m \<Longrightarrow> scan_array m (acc @ [v1]) (skip_ws r') = Some (v, r)"
      by blast+
    from i2(1) len2 r' i1(1) have "length r < length cs" by simp
    moreover have "scan_array m acc cs = Some (v, r)" if "2 * length cs + 1 \<le> m" for m
    proof -
      from fuel [OF that] obtain k where k: "m = Suc k" "2 * length cs \<le> k" by blast
      from k(2) len2 r' i1(1) have "2 * length (skip_ws r') + 1 \<le> k" by simp
      from i2(2) [OF this] i1(2) [OF k(2)] k(1) d False c show ?thesis by simp
    qed
    ultimately show ?thesis by blast
  qed
qed

lemma scan_object_step:
  assumes val: "\<And>cs v r. scan_value n cs = Some (v, r) \<Longrightarrow>
             length r < length cs \<and> (\<forall>m. 2 * length cs \<le> m \<longrightarrow> scan_value m cs = Some (v, r))"
    and obj: "\<And>acc cs v r. scan_object n acc cs = Some (v, r) \<Longrightarrow>
             length r < length cs \<and> (\<forall>m. 2 * length cs + 1 \<le> m \<longrightarrow> scan_object m acc cs = Some (v, r))"
    and a: "scan_object (Suc n) acc cs = Some (v, r)"
  shows "length r < length cs \<and> (\<forall>m. 2 * length cs + 1 \<le> m \<longrightarrow> scan_object m acc cs = Some (v, r))"
proof -
  from a obtain q r0 where cs: "cs = q # r0" by (cases cs) simp_all
  from a cs have q: "q = CHR 0x22" by (simp split: if_splits)
  from a cs q obtain k1 r1 where s0: "scan_string [] r0 = Some (k1, r1)"
    by (cases "scan_string [] r0") auto
  from a cs q s0 obtain col r2 where c1: "skip_ws r1 = col # r2"
    by (cases "skip_ws r1") simp_all
  from a cs q s0 c1 have col: "col = CHR '':''" by (simp split: if_splits)
  from a cs q s0 c1 col obtain v1 r3 where s1: "scan_value n (skip_ws r2) = Some (v1, r3)"
    by (cases "scan_value n (skip_ws r2)") auto
  from a cs q s0 c1 col s1 obtain d r4 where d: "skip_ws r3 = d # r4"
    by (cases "skip_ws r3") simp_all
  from val [OF s1] have i1: "length r3 < length (skip_ws r2)"
    "\<And>m. 2 * length (skip_ws r2) \<le> m \<Longrightarrow> scan_value m (skip_ws r2) = Some (v1, r3)" by blast+
  have "length r1 < length r0" by (rule scan_string_shorter [OF s0])
  moreover have "length (skip_ws r1) \<le> length r1" by (rule skip_ws_length)
  moreover have "length (skip_ws r2) \<le> length r2" by (rule skip_ws_length)
  moreover have "length (skip_ws r3) \<le> length r3" by (rule skip_ws_length)
  moreover have "length (skip_ws r4) \<le> length r4" by (rule skip_ws_length)
  ultimately have lens: "length (skip_ws r2) < length cs" "length r4 < length r3"
    "length (skip_ws r4) < length r3"
    using cs c1 d by simp_all
  have fuel: "\<exists>k. m = Suc k \<and> 2 * length cs \<le> k" if "2 * length cs + 1 \<le> m" for m
    using that by (cases m) simp_all
  show ?thesis
  proof (cases "d = CHR 0x7D")
    case True
    with a cs q s0 c1 col s1 d have e: "v = JObj (AList.update k1 v1 acc)" "r = r4" by simp_all
    from e lens i1(1) have "length r < length cs" by simp
    moreover have "scan_object m acc cs = Some (v, r)" if "2 * length cs + 1 \<le> m" for m
    proof -
      from fuel [OF that] obtain k where k: "m = Suc k" "2 * length cs \<le> k" by blast
      from k(2) lens have "2 * length (skip_ws r2) \<le> k" by simp
      from i1(2) [OF this] k(1) cs q s0 c1 col d True e show ?thesis by simp
    qed
    ultimately show ?thesis by blast
  next
    case False
    with a cs q s0 c1 col s1 d have c: "d = CHR '',''" by (simp split: if_splits)
    with a cs q s0 c1 col s1 d False
    have s2: "scan_object n (AList.update k1 v1 acc) (skip_ws r4) = Some (v, r)" by simp
    from obj [OF s2] have i2: "length r < length (skip_ws r4)"
      "\<And>m. 2 * length (skip_ws r4) + 1 \<le> m \<Longrightarrow>
         scan_object m (AList.update k1 v1 acc) (skip_ws r4) = Some (v, r)"
      by blast+
    from i2(1) lens i1(1) have "length r < length cs" by simp
    moreover have "scan_object m acc cs = Some (v, r)" if "2 * length cs + 1 \<le> m" for m
    proof -
      from fuel [OF that] obtain k where k: "m = Suc k" "2 * length cs \<le> k" by blast
      from k(2) lens have f1: "2 * length (skip_ws r2) \<le> k" by simp
      from k(2) lens i1(1) have f2: "2 * length (skip_ws r4) + 1 \<le> k" by simp
      from i2(2) [OF f2] i1(2) [OF f1] k(1) cs q s0 c1 col d False c show ?thesis by simp
    qed
    ultimately show ?thesis by blast
  qed
qed

lemma scan_fuel:
  "(\<forall>cs v r. scan_value n cs = Some (v, r) \<longrightarrow>
      length r < length cs \<and> (\<forall>m. 2 * length cs \<le> m \<longrightarrow> scan_value m cs = Some (v, r))) \<and>
   (\<forall>acc cs v r. scan_array n acc cs = Some (v, r) \<longrightarrow>
      length r < length cs \<and> (\<forall>m. 2 * length cs + 1 \<le> m \<longrightarrow> scan_array m acc cs = Some (v, r))) \<and>
   (\<forall>acc cs v r. scan_object n acc cs = Some (v, r) \<longrightarrow>
      length r < length cs \<and> (\<forall>m. 2 * length cs + 1 \<le> m \<longrightarrow> scan_object m acc cs = Some (v, r)))"
proof (induction n)
  case 0
  show ?case by simp
next
  case (Suc n)
  from Suc have val: "\<And>cs v r. scan_value n cs = Some (v, r) \<Longrightarrow>
      length r < length cs \<and> (\<forall>m. 2 * length cs \<le> m \<longrightarrow> scan_value m cs = Some (v, r))"
    by blast
  from Suc have arr: "\<And>acc cs v r. scan_array n acc cs = Some (v, r) \<Longrightarrow>
      length r < length cs \<and> (\<forall>m. 2 * length cs + 1 \<le> m \<longrightarrow> scan_array m acc cs = Some (v, r))"
    by blast
  from Suc have obj: "\<And>acc cs v r. scan_object n acc cs = Some (v, r) \<Longrightarrow>
      length r < length cs \<and> (\<forall>m. 2 * length cs + 1 \<le> m \<longrightarrow> scan_object m acc cs = Some (v, r))"
    by blast
  show ?case
  proof (intro conjI allI impI)
    fix cs v r assume "scan_value (Suc n) cs = Some (v, r)"
    from scan_value_step [OF arr obj this]
    show "length r < length cs" and "\<And>m. 2 * length cs \<le> m \<Longrightarrow> scan_value m cs = Some (v, r)"
      by blast+
  next
    fix acc cs v r assume "scan_array (Suc n) acc cs = Some (v, r)"
    from scan_array_step [OF val arr this]
    show "length r < length cs"
      and "\<And>m. 2 * length cs + 1 \<le> m \<Longrightarrow> scan_array m acc cs = Some (v, r)"
      by blast+
  next
    fix acc cs v r assume "scan_object (Suc n) acc cs = Some (v, r)"
    from scan_object_step [OF val obj this]
    show "length r < length cs"
      and "\<And>m. 2 * length cs + 1 \<le> m \<Longrightarrow> scan_object m acc cs = Some (v, r)"
      by blast+
  qed
qed

lemma json_loads_fuel:
  assumes "scan_value n (skip_ws s) = Some (v, r)"
  shows "json_loads s = (if skip_ws r = [] then Some v else None)"
proof -
  have "2 * length (skip_ws s) \<le> 2 * length s + 2"
    using skip_ws_length [of s] by simp
  with scan_fuel [of n] assms have "scan_value (2 * length s + 2) (skip_ws s) = Some (v, r)"
    by blast
  then show ?thesis by (simp add: json_loads_def)
qed

subsection \<open>How a run writes its entry\<close>

lemma update_progress_present:
  assumes "active_workflows s wid = Some w"
  shows "update_workflow_progress e wid n k t s =
    s\<lparr>active_workflows := (active_workflows s)(wid \<mapsto>
           w\<lparr>progress := \<lparr>current_step = k, total_steps = t, step_name = n\<rparr>,
             updated_at := isoformat (clock e (ticks s))\<rparr>),
      ticks := Suc (ticks s),
      history := history s @
        [(active_workflows s)(wid \<mapsto> w\<lparr>progress := \<lparr>current_step = k, total_steps = t, step_name = n\<rparr>\<rparr>),
         (active_workflows s)(wid \<mapsto>
           w\<lparr>progress := \<lparr>current_step = k, total_steps = t, step_name = n\<rparr>,
             updated_at := isoformat (clock e (ticks s))\<rparr>)]\<rparr>"
  using assms
  by (simp add: update_workflow_progress_def write_workflows_def datetime_now_def Let_def)

lemma advances_refl:
  "active_workflows s wid = Some w \<Longrightarrow> current_step (progress w) \<le> k \<Longrightarrow> advances wid k s s"
  unfolding advances_def
  by (rule exI [of _ w], rule exI [of _ "[]"], rule exI [of _ "[]"]) simp

lemma advances_frame:
  "advances wid k s0 s \<Longrightarrow> active_workflows s' = active_workflows s \<Longrightarrow> history s' = history s
     \<Longrightarrow> advances wid k s0 s'"
  unfolding advances_def by simp

lemma advances_weaken:
  "advances wid k s0 s \<Longrightarrow> k \<le> k' \<Longrightarrow> advances wid k' s0 s"
  unfolding advances_def by force

lemma advances_update:
  assumes a: "advances wid k0 s0 s" and le: "k0 \<le> k" "k \<le> t"
  shows "advances wid k s0 (update_workflow_progress e wid n k t s)"
proof -
  from a obtain w hs ws where
    w: "active_workflows s0 wid = Some w" and
    h: "history s = history s0 @ hs" and
    p: "map (\<lambda>m. m wid) hs = map Some ws" and
    l: "active_workflows s wid = Some (last (w # ws))" and
    same: "\<forall>w'\<in>set ws. status w' = status w \<and> error w' = error w \<and> results w' = results w \<and>
                      current_step (progress w') \<le> total_steps (progress w')" and
    srt: "sorted (map (\<lambda>w. current_step (progress w)) (w # ws))" and
    bound: "\<forall>w'\<in>set (w # ws). current_step (progress w') \<le> k0"
    unfolding advances_def by blast
  let ?wl = "last (w # ws)"
  let ?p = "\<lparr>current_step = k, total_steps = t, step_name = n\<rparr>"
  let ?w1 = "?wl\<lparr>progress := ?p\<rparr>"
  let ?w2 = "?wl\<lparr>progress := ?p, updated_at := isoformat (clock e (ticks s))\<rparr>"
  let ?s' = "update_workflow_progress e wid n k t s"
  let ?A = "active_workflows s"
  have wl: "status ?wl = status w \<and> error ?wl = error w \<and> results ?wl = results w"
    using same by (cases ws rule: rev_cases) auto
  have eq: "?s' = s\<lparr>active_workflows := ?A(wid \<mapsto> ?w2), ticks := Suc (ticks s),
                     history := history s @ [?A(wid \<mapsto> ?w1), ?A(wid \<mapsto> ?w2)]\<rparr>"
    by (rule update_progress_present [OF l])
  have 1: "history ?s' = history s0 @ (hs @ [?A(wid \<mapsto> ?w1), ?A(wid \<mapsto> ?w2)])"
    by (simp add: eq h)
  have 2: "map (\<lambda>m. m wid) (hs @ [?A(wid \<mapsto> ?w1), ?A(wid \<mapsto> ?w2)]) = map Some (ws @ [?w1, ?w2])"
    by (simp add: p)
  have 3: "active_workflows ?s' wid = Some (last (w # (ws @ [?w1, ?w2])))"
    by (simp add: eq)
  have 4: "\<forall>w'\<in>set (ws @ [?w1, ?w2]). status w' = status w \<and> error w' = error w \<and>
              results w' = results w \<and> current_step (progress w') \<le> total_steps (progress w')"
    using same wl le by auto
  have 5: "sorted (map (\<lambda>w. current_step (progress w)) (w # (ws @ [?w1, ?w2])))"
    using srt bound le by (auto simp: sorted_append)
  have 6: "\<forall>w'\<in>set (w # (ws @ [?w1, ?w2])). current_step (progress w') \<le> k"
    using bound le by auto
  show ?thesis
    unfolding advances_def using w 1 2 3 4 5 6 by blast
qed

lemma advances_same:
  "advances wid k s0 s \<Longrightarrow> same_workflows s s' \<Longrightarrow> advances wid k s0 s'"
  unfolding same_workflows_def by (rule advances_frame) auto

lemma chat_same: "same_workflows s (snd (chat e t m papers s))"
  by (simp add: same_workflows_def chat_def Let_def)

lemma search_same: "same_workflows s (snd (search_arxiv e q n s))"
  by (simp add: same_workflows_def search_arxiv_def logger_def split: sum.splits exn.splits)

lemma summarize_same: "same_workflows s (snd (summarize_with_ollama e papers m s))"
  by (simp add: same_workflows_def summarize_with_ollama_def chat_def logger_def Let_def
           split: sum.splits)

lemma extract_comparison_same: "same_workflows s (snd (extract_comparison papers body s))"
  by (simp add: same_workflows_def extract_comparison_def logger_def Let_def
           split: option.splits json.splits)

lemma compare_same: "same_workflows s (snd (compare_papers_with_ollama e papers m s))"
proof -
  have "same_workflows (snd (chat e Compare m papers s)) (snd (extract_comparison papers body (snd (chat e Compare m papers s))))" for body
    by (rule extract_comparison_same)
  then show ?thesis
    using chat_same [of s e Compare m papers]
    by (auto simp: same_workflows_def compare_papers_with_ollama_def logger_def
             split: sum.splits prod.splits) (metis snd_conv)+
qed

lemma gaps_same: "same_workflows s (snd (analyze_research_gaps e papers m s))"
  by (simp add: same_workflows_def analyze_research_gaps_def chat_def logger_def Let_def
           split: sum.splits)

lemma trends_same: "same_workflows s (snd (analyze_trends e papers m s))"
  by (simp add: same_workflows_def analyze_trends_def chat_def logger_def Let_def
           split: sum.splits)

lemma custom_same: "same_workflows s (snd (perform_custom_analysis e papers i m s))"
  by (simp add: same_workflows_def perform_custom_analysis_def chat_def Let_def
           split: sum.splits)

lemma save_same: "same_workflows s (snd (save_workflow_results e wid q res s))"
  by (simp add: same_workflows_def save_workflow_results_def datetime_now_def logger_def Let_def
           split: option.splits)

lemma literature_review_advances:
  assumes a: "advances wid 1 s0 s"
  shows "advances wid 5 s0 (snd (execute_literature_review e wid papers req res s))"
proof -
  let ?m = "Some (model req)"
  let ?s1 = "snd (summarize_with_ollama e papers ?m
                    (update_workflow_progress e wid ''Generating Summary'' 2 5 s))"
  let ?s2 = "snd (compare_papers_with_ollama e papers ?m
                    (update_workflow_progress e wid ''Comparing Papers'' 3 5 ?s1))"
  let ?s3 = "snd (analyze_research_gaps e papers ?m
                    (update_workflow_progress e wid ''Analyzing Gaps'' 4 5 ?s2))"
  let ?s4 = "update_workflow_progress e wid ''Finalizing'' 5 5 ?s3"
  have b1: "advances wid 2 s0 ?s1"
    by (rule advances_same [OF advances_update [OF a] summarize_same]) simp_all
  have b2: "advances wid 3 s0 ?s2"
    by (rule advances_same [OF advances_update [OF b1] compare_same]) simp_all
  have b3: "advances wid 4 s0 ?s3"
    by (rule advances_same [OF advances_update [OF b2] gaps_same]) simp_all
  have b4: "advances wid 5 s0 ?s4"
    by (rule advances_update [OF b3]) simp_all
  have c1: "advances wid 5 s0 ?s1" by (rule advances_weaken [OF b1]) simp
  have c2: "advances wid 5 s0 ?s2" by (rule advances_weaken [OF b2]) simp
  show ?thesis
    unfolding execute_literature_review_def using c1 c2 b4
    by (auto split: prod.splits sum.splits)
qed

lemma gap_analysis_advances:
  assumes a: "advances wid 1 s0 s"
  shows "advances wid 5 s0 (snd (execute_gap_analysis e wid papers req res s))"
proof -
  let ?m = "Some (model req)"
  let ?s1 = "snd (compare_papers_with_ollama e papers ?m
                    (update_workflow_progress e wid ''Comparing Papers'' 2 4 s))"
  let ?s2 = "snd (analyze_research_gaps e papers ?m
                    (update_workflow_progress e wid ''Analyzing Gaps'' 3 4 ?s1))"
  let ?s3 = "update_workflow_progress e wid ''Generating Recommendations'' 4 4 ?s2"
  have b1: "advances wid 2 s0 ?s1"
    by (rule advances_same [OF advances_update [OF a] compare_same]) simp_all
  have b2: "advances wid 3 s0 ?s2"
    by (rule advances_same [OF advances_update [OF b1] gaps_same]) simp_all
  have b3: "advances wid 4 s0 ?s3"
    by (rule advances_update [OF b2]) simp_all
  have c1: "advances wid 5 s0 ?s1" by (rule advances_weaken [OF b1]) simp
  have c3: "advances wid 5 s0 ?s3" by (rule advances_weaken [OF b3]) simp
  show ?thesis
    unfolding execute_gap_analysis_def using c1 c3
    by (auto split: prod.splits sum.splits)
qed

lemma methodology_comparison_advances:
  assumes a: "advances wid 1 s0 s"
  shows "advances wid 5 s0 (snd (execute_methodology_comparison e wid papers req res s))"
proof -
  let ?m = "Some (model req)"
  let ?s1 = "snd (compare_papers_with_ollama e papers ?m
                    (update_workflow_progress e wid ''Detailed Comparison'' 2 3 s))"
  let ?s2 = "update_workflow_progress e wid ''Methodology Analysis'' 3 3 ?s1"
  have b1: "advances wid 2 s0 ?s1"
    by (rule advances_same [OF advances_update [OF a] compare_same]) simp_all
  have b2: "advances wid 3 s0 ?s2"
    by (rule advances_update [OF b1]) simp_all
  have c1: "advances wid 5 s0 ?s1" by (rule advances_weaken [OF b1]) simp
  have c2: "advances wid 5 s0 ?s2" by (rule advances_weaken [OF b2]) simp
  show ?thesis
    unfolding execute_methodology_comparison_def using c1 c2
    by (auto simp: Let_def split: prod.splits sum.splits)
qed

lemma trend_analysis_advances:
  assumes a: "advances wid 1 s0 s"
  shows "advances wid 5 s0 (snd (execute_trend_analysis e wid papers req res s))"
proof -
  let ?m = "Some (model req)"
  let ?s1 = "snd (analyze_trends e papers ?m
                    (update_workflow_progress e wid ''Trend Analysis'' 2 3 s))"
  let ?s2 = "update_workflow_progress e wid ''Future Directions'' 3 3 ?s1"
  have b1: "advances wid 2 s0 ?s1"
    by (rule advances_same [OF advances_update [OF a] trends_same]) simp_all
  have b2: "advances wid 3 s0 ?s2"
    by (rule advances_update [OF b1]) simp_all
  have c2: "advances wid 5 s0 ?s2" by (rule advances_weaken [OF b2]) simp
  show ?thesis
    unfolding execute_trend_analysis_def using c2
    by (auto split: prod.splits)
qed

lemma custom_workflow_advances:
  assumes a: "advances wid 1 s0 s"
  shows "advances wid 5 s0 (snd (execute_custom_workflow e wid papers req res s))"
proof -
  have b1: "advances wid 2 s0 (snd (perform_custom_analysis e papers i (model req)
                    (update_workflow_progress e wid ''Custom Analysis'' 2 3 s)))" for i
    by (rule advances_same [OF advances_update [OF a] custom_same]) simp_all
  have c0: "advances wid 5 s0 s" by (rule advances_weaken [OF a]) simp
  have c1: "advances wid 5 s0 (snd (perform_custom_analysis e papers i (model req)
                    (update_workflow_progress e wid ''Custom Analysis'' 2 3 s)))" for i
    by (rule advances_weaken [OF b1]) simp
  show ?thesis
    unfolding execute_custom_workflow_def using c0 c1
    by (auto split: prod.splits option.splits) (metis snd_conv)
qed

lemma dispatch_advances:
  "advances wid 1 s0 s \<Longrightarrow> advances wid 5 s0 (snd (dispatch e wid papers req res s))"
  unfolding dispatch_def
  by (simp add: literature_review_advances gap_analysis_advances methodology_comparison_advances
        trend_analysis_advances custom_workflow_advances split: AutomationType.splits)

lemma sorted_snoc_last:
  fixes f :: "'a \<Rightarrow> int"
  assumes "sorted (map f xs)" "xs \<noteq> []" "f y = f (last xs)"
  shows "sorted (map f (xs @ [y]))"
proof -
  have "\<forall>x\<in>set xs. f x \<le> f (last xs)"
    using assms(1,2)
  proof (induction xs)
    case Nil then show ?case by simp
  next
    case (Cons a xs) then show ?case by (cases xs) auto
  qed
  with assms show ?thesis by (simp add: sorted_append)
qed

lemma finish_run:
  assumes I: "active_workflows sI wid = Some w0" "history sI = history s @ [m0]" "m0 wid = Some w0"
      and w0: "status w0 = ''running''" "error w0 = None" "results w0 = []"
              "current_step (progress w0) \<le> total_steps (progress w0)"
      and adv: "advances wid k sI s'"
      and sX: "same_workflows s' sX"
      and fin: "\<And>wl. active_workflows s' wid = Some wl \<Longrightarrow>
                  status wl = ''running'' \<Longrightarrow> error wl = None \<Longrightarrow> results wl = [] \<Longrightarrow>
                  progress (g wl) = progress wl \<and>
                  (status (g wl) = ''failed'' \<and> error (g wl) \<noteq> None \<and> results (g wl) = [] \<or>
                   status (g wl) = ''completed'' \<and> error (g wl) = None \<or>
                   np \<and> status (g wl) = ''completed'' \<and> error (g wl) = Some no_papers_note \<and> results (g wl) = [])"
  shows "completes wid np w0 s
           (write_workflows ((active_workflows sX)(wid \<mapsto> g (the (active_workflows sX wid)))) sX)"
proof -
  from adv I(1) obtain hs ws where
    h: "history s' = history sI @ hs" and
    p: "map (\<lambda>m. m wid) hs = map Some ws" and
    l: "active_workflows s' wid = Some (last (w0 # ws))" and
    same: "\<forall>w'\<in>set ws. status w' = status w0 \<and> error w' = error w0 \<and> results w' = results w0 \<and>
                      current_step (progress w') \<le> total_steps (progress w')" and
    srt: "sorted (map (\<lambda>w. current_step (progress w)) (w0 # ws))"
    unfolding advances_def by auto
  let ?wl = "last (w0 # ws)"
  let ?wend = "g ?wl"
  let ?sF = "write_workflows ((active_workflows sX)(wid \<mapsto> g (the (active_workflows sX wid)))) sX"
  have all: "\<forall>w\<in>set (w0 # ws). status w = ''running'' \<and> error w = None \<and> results w = [] \<and>
        current_step (progress w) \<le> total_steps (progress w)"
    using same w0 by auto
  then have wl: "status ?wl = ''running'' \<and> error ?wl = None \<and> results ?wl = [] \<and>
        current_step (progress ?wl) \<le> total_steps (progress ?wl)"
    by (metis last_in_set list.distinct(1))
  have g: "progress ?wend = progress ?wl"
     "status ?wend = ''failed'' \<and> error ?wend \<noteq> None \<and> results ?wend = [] \<or>
      status ?wend = ''completed'' \<and> error ?wend = None \<or>
      np \<and> status ?wend = ''completed'' \<and> error ?wend = Some no_papers_note \<and> results ?wend = []"
    using fin [OF l] wl by auto
  have X: "active_workflows sX = active_workflows s'" "history sX = history s'"
    using sX by (auto simp: same_workflows_def)
  have 1: "map (\<lambda>m. m wid) (drop (length (history s)) (history ?sF)) = map Some (w0 # ws @ [?wend])"
    by (simp add: write_workflows_def X h I p l)
  have 2: "sorted (map (\<lambda>w. current_step (progress w)) ((w0 # ws) @ [?wend]))"
  proof (rule sorted_snoc_last [OF srt])
    show "w0 # ws \<noteq> []" by simp
    show "current_step (progress ?wend) = current_step (progress (last (w0 # ws)))"
      by (simp only: g(1))
  qed
  have 3: "run_shape np w0 ws ?wend"
    unfolding run_shape_def using all 2 g wl by simp
  have 4: "active_workflows ?sF wid = Some ?wend"
    by (simp add: write_workflows_def X l)
  show ?thesis unfolding completes_def using 1 3 4 by blast
qed

lemma registered_facts:
  "active_workflows (registered e wid s) wid =
     Some (initial_workflow (clock e (ticks s)) (clock e (Suc (ticks s))))"
  "history (registered e wid s) =
     history s @ [(active_workflows s)(wid \<mapsto> initial_workflow (clock e (ticks s)) (clock e (Suc (ticks s))))]"
  by (simp_all add: registered_def write_workflows_def)

lemma workflow_body_eq:
  "workflow_body e req wid s =
     (case search_arxiv e (query req) (max_results req)
             (update_workflow_progress e wid ''Searching arXiv'' 1 5 (registered e wid s)) of
        (Inl ex, s3) \<Rightarrow> (Inl ex, s3)
      | (Inr papers, s3) \<Rightarrow>
          if papers = [] then
            (case active_workflows s3 wid of
               None \<Rightarrow> (Inl (KeyError wid), s3)
             | Some w \<Rightarrow>
                 (Inr (),
                  write_workflows
                    ((active_workflows s3)(wid \<mapsto>
                       w\<lparr>status := ''completed'',
                         error := Some ''No papers found for the given query''\<rparr>)) s3))
          else
            (case dispatch e wid papers req
                    [(''papers_found'', JInt (int (length papers))),
                     (''papers'', JArr (map paper_dict papers)),
                     (''workflow_type'', JStr (type_value (automation_type req)))] s3 of
               (Inl ex, s4) \<Rightarrow> (Inl ex, s4)
             | (Inr res, s4) \<Rightarrow>
                 (case save_workflow_results e wid (query req) res s4 of
                    (saved, s5) \<Rightarrow>
                      (case active_workflows s5 wid of
                         None \<Rightarrow> (Inl (KeyError wid), s5)
                       | Some w \<Rightarrow>
                           (Inr (),
                            write_workflows
                              ((active_workflows s5)(wid \<mapsto>
                                 w\<lparr>status := ''completed'', results := res,
                                   updated_at := isoformat (clock e (ticks s5))\<rparr>))
                              (s5\<lparr>ticks := Suc (ticks s5)\<rparr>))))))"
  by (simp add: workflow_body_def datetime_now_def registered_def split: prod.splits sum.splits option.splits)

lemma search_result:
  "fst (search_arxiv e q n s) = Inr ps \<longleftrightarrow> arxiv_request e q n = Inr ps"
  by (simp add: search_arxiv_def split: sum.splits exn.splits)

lemma advances_entry:
  "advances wid k s0 s \<Longrightarrow> \<exists>w. active_workflows s wid = Some w"
  unfolding advances_def by auto

lemma workflow_body_outcome:
  fixes e req wid s
  defines "w0 \<equiv> initial_workflow (clock e (ticks s)) (clock e (Suc (ticks s)))"
      and "np \<equiv> arxiv_request e (query req) (max_results req) = Inr []"
  shows "(\<exists>ex. fst (workflow_body e req wid s) = Inl ex \<and>
               advances wid 5 (registered e wid s) (snd (workflow_body e req wid s))) \<or>
         (fst (workflow_body e req wid s) = Inr () \<and>
            completes wid np w0 s (snd (workflow_body e req wid s)))"
proof -
  let ?sI = "registered e wid s"
  let ?sU = "update_workflow_progress e wid ''Searching arXiv'' 1 5 ?sI"
  have I: "active_workflows ?sI wid = Some w0"
    "history ?sI = history s @ [(active_workflows s)(wid \<mapsto> w0)]"
    "((active_workflows s)(wid \<mapsto> w0)) wid = Some w0"
    by (simp_all add: registered_facts w0_def)
  have w0: "status w0 = ''running''" "error w0 = None" "results w0 = []"
    "current_step (progress w0) \<le> total_steps (progress w0)"
    "current_step (progress w0) \<le> 0"
    by (simp_all add: w0_def initial_workflow_def)
  have aU: "advances wid 1 ?sI ?sU"
    by (rule advances_update [OF advances_refl [OF I(1) w0(5)]]) simp_all
  obtain r s3 where S: "search_arxiv e (query req) (max_results req) ?sU = (r, s3)"
    by (cases "search_arxiv e (query req) (max_results req) ?sU")
  have a3: "advances wid 1 ?sI s3"
    using advances_same [OF aU search_same [of ?sU e "query req" "max_results req"]] S by simp
  show ?thesis
  proof (cases r)
    case (Inl ex)
    then show ?thesis
      using advances_weaken [OF a3, of 5] by (simp add: workflow_body_eq S)
  next
    case (Inr papers)
    show ?thesis
    proof (cases "papers = []")
      case True
      from advances_entry [OF a3] obtain w where w: "active_workflows s3 wid = Some w" by blast
      let ?g = "\<lambda>w. w\<lparr>status := ''completed'', error := Some ''No papers found for the given query''\<rparr>"
      have same: "same_workflows s3 s3" by (simp add: same_workflows_def)
      have np: np
        using S Inr True search_result [of e "query req" "max_results req" ?sU "[]"]
        by (simp add: np_def)
      have "completes wid np w0 s
              (write_workflows ((active_workflows s3)(wid \<mapsto> ?g (the (active_workflows s3 wid)))) s3)"
        by (rule finish_run [OF I w0(1-4) a3 same]) (simp add: no_papers_note_def np)
      then show ?thesis
        by (simp add: workflow_body_eq S Inr True w)
    next
      case False
      let ?res0 = "[(''papers_found'', JInt (int (length papers))),
                     (''papers'', JArr (map paper_dict papers)),
                     (''workflow_type'', JStr (type_value (automation_type req)))]"
      obtain r4 s4 where D: "dispatch e wid papers req ?res0 s3 = (r4, s4)"
        by (cases "dispatch e wid papers req ?res0 s3")
      have a4: "advances wid 5 ?sI s4"
        using dispatch_advances [OF a3, of e papers req ?res0] D by simp
      show ?thesis
      proof (cases r4)
        case (Inl ex)
        then show ?thesis using a4 by (simp add: workflow_body_eq S Inr False D)
      next
        case r4: (Inr res)
        obtain saved s5 where V: "save_workflow_results e wid (query req) res s4 = (saved, s5)"
          by (cases "save_workflow_results e wid (query req) res s4")
        have same5: "same_workflows s4 s5"
          using save_same [of s4 e wid "query req" res] V by simp
        from advances_entry [OF a4] obtain w where "active_workflows s4 wid = Some w" by blast
        then have w: "active_workflows s5 wid = Some w"
          using same5 by (simp add: same_workflows_def)
        let ?g = "\<lambda>w. w\<lparr>status := ''completed'', results := res,
                           updated_at := isoformat (clock e (ticks s5))\<rparr>"
        let ?s6 = "s5\<lparr>ticks := Suc (ticks s5)\<rparr>"
        have same6: "same_workflows s4 ?s6"
          using same5 by (simp add: same_workflows_def)
        have "completes wid np w0 s
                (write_workflows ((active_workflows ?s6)(wid \<mapsto> ?g (the (active_workflows ?s6 wid)))) ?s6)"
          by (rule finish_run [OF I w0(1-4) a4 same6]) simp
        then show ?thesis
          by (simp add: workflow_body_eq S Inr False D r4 V w)
      qed
    qed
  qed
qed

lemma execute_completes:
  "fst (execute_automation_workflow e req wid s) = Inr () \<and>
   completes wid (arxiv_request e (query req) (max_results req) = Inr [])
     (initial_workflow (clock e (ticks s)) (clock e (Suc (ticks s)))) s
     (snd (execute_automation_workflow e req wid s))"
proof -
  let ?w0 = "initial_workflow (clock e (ticks s)) (clock e (Suc (ticks s)))"
  let ?sI = "registered e wid s"
  have I: "active_workflows ?sI wid = Some ?w0"
    "history ?sI = history s @ [(active_workflows s)(wid \<mapsto> ?w0)]"
    "((active_workflows s)(wid \<mapsto> ?w0)) wid = Some ?w0"
    by (simp_all add: registered_facts)
  have w0: "status ?w0 = ''running''" "error ?w0 = None" "results ?w0 = []"
    "current_step (progress ?w0) \<le> total_steps (progress ?w0)"
    by (simp_all add: initial_workflow_def)
  obtain r s1 where B: "workflow_body e req wid s = (r, s1)"
    by (cases "workflow_body e req wid s")
  show ?thesis
  proof (cases r)
    case (Inr u)
    then show ?thesis
      using workflow_body_outcome [of e req wid s] B
      by (simp add: execute_automation_workflow_def)
  next
    case (Inl ex)
    with workflow_body_outcome [of e req wid s] B
    have a: "advances wid 5 ?sI s1" by simp
    let ?s2 = "logger ''ERROR'' (''Workflow execution error: '' @ str_exn ex) s1"
    let ?s3 = "?s2\<lparr>ticks := Suc (ticks ?s2)\<rparr>"
    let ?g = "\<lambda>w. w\<lparr>status := ''failed'', error := Some (str_exn ex),
                       updated_at := isoformat (clock e (ticks ?s2))\<rparr>"
    from advances_entry [OF a] obtain w where "active_workflows s1 wid = Some w" by blast
    then have w: "active_workflows ?s2 wid = Some w" by (simp add: logger_def)
    have same: "same_workflows s1 ?s3" by (simp add: same_workflows_def logger_def)
    have "completes wid (arxiv_request e (query req) (max_results req) = Inr []) ?w0 s
            (write_workflows ((active_workflows ?s3)(wid \<mapsto> ?g (the (active_workflows ?s3 wid)))) ?s3)"
      by (rule finish_run [OF I w0 a same]) simp
    then show ?thesis
      using w by (simp add: execute_automation_workflow_def B Inl datetime_now_def Let_def)
  qed
qed

subsection \<open>What a run leaves, step by step\<close>

lemma view_of_update [simp]:
  "view_of (update_workflow_progress e wid n k t s) wid =
     map_option (with_progress \<lparr>current_step = k, total_steps = t, step_name = n\<rparr>) (view_of s wid)"
proof (cases "active_workflows s wid")
  case None
  then show ?thesis by (simp add: view_of_def update_workflow_progress_def)
next
  case (Some w)
  then show ?thesis
    by (simp add: view_of_def update_progress_present [OF Some] view_def with_progress_def)
qed

lemma seen_update [simp]:
  "seen wid (update_workflow_progress e wid n k t s) =
     seen wid s @
       (case view_of s wid of
          None \<Rightarrow> []
        | Some v \<Rightarrow> [Some (with_progress \<lparr>current_step = k, total_steps = t, step_name = n\<rparr> v),
                     Some (with_progress \<lparr>current_step = k, total_steps = t, step_name = n\<rparr> v)])"
proof (cases "active_workflows s wid")
  case None
  then show ?thesis by (simp add: view_of_def update_workflow_progress_def)
next
  case (Some w)
  then show ?thesis
    by (simp add: seen_def view_of_def update_progress_present [OF Some] view_def with_progress_def)
qed

lemma chat_calls_update [simp]:
  "chat_calls (update_workflow_progress e wid n k t s) = chat_calls s"
proof (cases "active_workflows s wid")
  case None
  then show ?thesis by (simp add: update_workflow_progress_def)
next
  case (Some w)
  then show ?thesis by (simp add: update_progress_present [OF Some])
qed

lemma same_view: "same_workflows s s' \<Longrightarrow> view_of s' wid = view_of s wid \<and> seen wid s' = seen wid s"
  by (simp add: same_workflows_def view_of_def seen_def)

lemma view_of_calls [simp]:
  "view_of (snd (search_arxiv e q n s)) wid = view_of s wid"
  "view_of (snd (summarize_with_ollama e papers m s)) wid = view_of s wid"
  "view_of (snd (compare_papers_with_ollama e papers m s)) wid = view_of s wid"
  "view_of (snd (analyze_research_gaps e papers m s)) wid = view_of s wid"
  "view_of (snd (analyze_trends e papers m s)) wid = view_of s wid"
  "view_of (snd (perform_custom_analysis e papers i mm s)) wid = view_of s wid"
  "view_of (snd (save_workflow_results e wid' q res s)) wid = view_of s wid"
  by (simp_all add: same_view search_same summarize_same compare_same gaps_same trends_same
        custom_same save_same)

lemma seen_calls [simp]:
  "seen wid (snd (search_arxiv e q n s)) = seen wid s"
  "seen wid (snd (summarize_with_ollama e papers m s)) = seen wid s"
  "seen wid (snd (compare_papers_with_ollama e papers m s)) = seen wid s"
  "seen wid (snd (analyze_research_gaps e papers m s)) = seen wid s"
  "seen wid (snd (analyze_trends e papers m s)) = seen wid s"
  "seen wid (snd (perform_custom_analysis e papers i mm s)) = seen wid s"
  "seen wid (snd (save_workflow_results e wid' q res s)) = seen wid s"
  by (simp_all add: same_view search_same summarize_same compare_same gaps_same trends_same
        custom_same save_same)

lemma fst_extract_comparison:
  "fst (extract_comparison papers body s) = comparison_of papers body"
  by (simp add: comparison_of_def extract_comparison_def Let_def split: option.splits json.splits)

lemma chat_calls_extract_comparison:
  "chat_calls (snd (extract_comparison papers body s)) = chat_calls s"
  by (simp add: extract_comparison_def logger_def Let_def split: option.splits json.splits)

lemma fst_calls:
  "fst (search_arxiv e q n s) =
     (case arxiv_request e q n of
        Inr papers \<Rightarrow> Inr papers
      | Inl (Timeout m) \<Rightarrow> Inl (HTTPException 408 ''arXiv API request timed out'')
      | Inl ex \<Rightarrow> Inl (HTTPException 500 (''arXiv search failed: '' @ str_exn ex)))"
  "papers \<noteq> [] \<Longrightarrow> fst (summarize_with_ollama e papers (Some m) s) =
     (case ollama_chat e Summarize m papers of
        Inr content \<Rightarrow> Inr (strip content)
      | Inl ex \<Rightarrow> Inl (HTTPException 500 (''Summarization failed: '' @ str_exn ex)))"
  "papers \<noteq> [] \<Longrightarrow> fst (compare_papers_with_ollama e papers (Some m) s) =
     (case ollama_chat e Compare m papers of
        Inr content \<Rightarrow> Inr (comparison_of papers (strip content))
      | Inl ex \<Rightarrow> Inl (HTTPException 500 (''Comparison failed: '' @ str_exn ex)))"
  "papers \<noteq> [] \<Longrightarrow> fst (analyze_research_gaps e papers (Some m) s) =
     (case ollama_chat e GapAnalysis m papers of
        Inr content \<Rightarrow> strip content
      | Inl ex \<Rightarrow> ''Gap analysis failed: '' @ str_exn ex)"
  "papers \<noteq> [] \<Longrightarrow> fst (analyze_trends e papers (Some m) s) =
     (case ollama_chat e TrendAnalysis m papers of
        Inr content \<Rightarrow> strip content
      | Inl ex \<Rightarrow> ''Trend analysis failed: '' @ str_exn ex)"
  "fst (perform_custom_analysis e papers i m s) =
     (case ollama_chat e (CustomAnalysis i) m papers of
        Inr content \<Rightarrow> strip content
      | Inl ex \<Rightarrow> ''Custom analysis failed: '' @ str_exn ex)"
       apply (simp add: search_arxiv_def split: sum.splits exn.splits)
      apply (simp add: summarize_with_ollama_def chat_def split: sum.splits)
     apply (simp add: compare_papers_with_ollama_def chat_def case_prod_beta
              fst_extract_comparison split: sum.splits)
    apply (simp add: analyze_research_gaps_def chat_def split: sum.splits)
   apply (simp add: analyze_trends_def chat_def split: sum.splits)
  apply (simp add: perform_custom_analysis_def chat_def split: sum.splits)
  done

lemma chat_calls_calls:
  "chat_calls (snd (search_arxiv e q n s)) = chat_calls s"
  "chat_calls (snd (summarize_with_ollama e papers m s)) =
     (if papers = [] then chat_calls s else chat_calls s @ [Summarize])"
  "chat_calls (snd (compare_papers_with_ollama e papers m s)) =
     (if papers = [] then chat_calls s else chat_calls s @ [Compare])"
  "chat_calls (snd (analyze_research_gaps e papers m s)) =
     (if papers = [] then chat_calls s else chat_calls s @ [GapAnalysis])"
  "chat_calls (snd (analyze_trends e papers m s)) =
     (if papers = [] then chat_calls s else chat_calls s @ [TrendAnalysis])"
  "chat_calls (snd (perform_custom_analysis e papers i mm s)) = chat_calls s @ [CustomAnalysis i]"
  "chat_calls (snd (save_workflow_results e wid' q res s)) = chat_calls s"
        apply (simp add: search_arxiv_def logger_def split: sum.splits exn.splits)
       apply (simp add: summarize_with_ollama_def chat_def logger_def split: sum.splits)
      apply (simp add: compare_papers_with_ollama_def chat_def logger_def case_prod_beta
               chat_calls_extract_comparison split: sum.splits)
     apply (simp add: analyze_research_gaps_def chat_def logger_def split: sum.splits)
    apply (simp add: analyze_trends_def chat_def logger_def split: sum.splits)
   apply (simp add: perform_custom_analysis_def chat_def split: sum.splits)
  apply (simp add: save_workflow_results_def datetime_now_def logger_def Let_def split: option.splits)
  done

lemma view_marks [simp]:
  "view (mark_no_papers w) =
     (''completed'', progress w, results w, Some ''No papers found for the given query'')"
  "view (mark_completed res u w) = (''completed'', progress w, res, error w)"
  "view (mark_failed msg u w) = (''failed'', progress w, results w, Some msg)"
  by (simp_all add: view_def mark_no_papers_def mark_completed_def mark_failed_def)

lemma finish_present:
  assumes "active_workflows s wid = Some w"
  shows "fst (finish wid g s s') = Inr ()"
    and "view_of (snd (finish wid g s s')) wid = Some (view (g w))"
    and "seen wid (snd (finish wid g s s')) = seen wid s' @ [Some (view (g w))]"
    and "chat_calls (snd (finish wid g s s')) = chat_calls s'"
  using assms by (simp_all add: finish_def view_of_def seen_def write_workflows_def)

lemma present_view: "view_of s wid = Some v \<Longrightarrow> \<exists>w. active_workflows s wid = Some w \<and> view w = v"
  by (auto simp: view_of_def)

lemma workflow_body_finish:
  "workflow_body e req wid s =
     (case search_arxiv e (query req) (max_results req)
             (update_workflow_progress e wid ''Searching arXiv'' 1 5 (registered e wid s)) of
        (Inl ex, s3) \<Rightarrow> (Inl ex, s3)
      | (Inr papers, s3) \<Rightarrow>
          if papers = [] then finish wid mark_no_papers s3 s3
          else
            (case dispatch e wid papers req
                    [(''papers_found'', JInt (int (length papers))),
                     (''papers'', JArr (map paper_dict papers)),
                     (''workflow_type'', JStr (type_value (automation_type req)))] s3 of
               (Inl ex, s4) \<Rightarrow> (Inl ex, s4)
             | (Inr res, s4) \<Rightarrow>
                 (case save_workflow_results e wid (query req) res s4 of
                    (saved, s5) \<Rightarrow>
                      finish wid (mark_completed res (isoformat (clock e (ticks s5)))) s5
                        (s5\<lparr>ticks := Suc (ticks s5)\<rparr>))))"
  by (simp add: workflow_body_eq finish_def mark_no_papers_def mark_completed_def
        split: prod.splits sum.splits option.splits)

lemma execute_finish:
  "execute_automation_workflow e req wid s =
     (case workflow_body e req wid s of
        (Inr u, s1) \<Rightarrow> (Inr u, s1)
      | (Inl ex, s1) \<Rightarrow>
          finish wid (mark_failed (str_exn ex)
                        (isoformat (clock e (ticks s1))))
            (logger ''ERROR'' (''Workflow execution error: '' @ str_exn ex) s1)
            (logger ''ERROR'' (''Workflow execution error: '' @ str_exn ex) s1
               \<lparr>ticks := Suc (ticks s1)\<rparr>))"
  by (simp add: execute_automation_workflow_def finish_def mark_failed_def datetime_now_def
        logger_def Let_def split: prod.splits sum.splits option.splits)

lemma view_of_registered [simp]:
  "view_of (registered e wid s) wid =
     Some (''running'', \<lparr>current_step = 0, total_steps = 0, step_name = ''Initializing''\<rparr>, [], None)"
  "seen wid (registered e wid s) =
     seen wid s @
       [Some (''running'', \<lparr>current_step = 0, total_steps = 0, step_name = ''Initializing''\<rparr>, [], None)]"
  "chat_calls (registered e wid s) = chat_calls s"
  by (simp_all add: registered_def view_of_def seen_def write_workflows_def view_def initial_workflow_def)

lemma projections_frame [simp]:
  "view_of (logger l m s) wid = view_of s wid"
  "seen wid (logger l m s) = seen wid s"
  "chat_calls (logger l m s) = chat_calls s"
  "view_of (s\<lparr>ticks := n\<rparr>) wid = view_of s wid"
  "seen wid (s\<lparr>ticks := n\<rparr>) = seen wid s"
  by (simp_all add: logger_def view_of_def seen_def)

lemma lifetime_seen:
  assumes "seen wid (snd (execute_automation_workflow e req wid s)) = seen wid s @ vs"
  shows "map (map_option view) (lifetime e req wid s) = vs"
proof -
  have "map (map_option view) (lifetime e req wid s) =
          drop (length (seen wid s)) (seen wid (snd (execute_automation_workflow e req wid s)))"
    by (simp add: lifetime_def seen_def drop_map)
  then show ?thesis using assms by simp
qed

lemma no_papers_run:
  assumes np: "arxiv_request e (query req) (max_results req) = Inr []"
  shows "fst (execute_automation_workflow e req wid s) = Inr ()"
    and "view_of (snd (execute_automation_workflow e req wid s)) wid =
       Some (''completed'', \<lparr>current_step = 1, total_steps = 5, step_name = ''Searching arXiv''\<rparr>, [],
             Some ''No papers found for the given query'')"
    and "chat_calls (snd (execute_automation_workflow e req wid s)) = chat_calls s"
proof -
  let ?sU = "update_workflow_progress e wid ''Searching arXiv'' 1 5 (registered e wid s)"
  let ?S = "search_arxiv e (query req) (max_results req) ?sU"
  have f: "fst ?S = Inr []" by (simp add: fst_calls np)
  have v: "view_of (snd ?S) wid =
      Some (''running'', \<lparr>current_step = 1, total_steps = 5, step_name = ''Searching arXiv''\<rparr>, [], None)"
    by (simp add: with_progress_def)
  from present_view [OF v] obtain w where
    w: "active_workflows (snd ?S) wid = Some w" and
    vw: "view w = (''running'', \<lparr>current_step = 1, total_steps = 5, step_name = ''Searching arXiv''\<rparr>, [], None)"
    by blast
  have b: "workflow_body e req wid s = finish wid mark_no_papers (snd ?S) (snd ?S)"
    using f by (simp add: workflow_body_finish case_prod_beta)
  have fb: "fst (workflow_body e req wid s) = Inr ()"
    by (simp add: b finish_present [OF w])
  have ex: "execute_automation_workflow e req wid s = workflow_body e req wid s"
    using fb by (cases "workflow_body e req wid s") (simp add: execute_finish)
  show "fst (execute_automation_workflow e req wid s) = Inr ()"
    by (simp add: ex fb)
  show "view_of (snd (execute_automation_workflow e req wid s)) wid =
       Some (''completed'', \<lparr>current_step = 1, total_steps = 5, step_name = ''Searching arXiv''\<rparr>, [],
             Some ''No papers found for the given query'')"
    using vw by (simp add: ex b finish_present [OF w]) (simp add: view_def)
  show "chat_calls (snd (execute_automation_workflow e req wid s)) = chat_calls s"
    by (simp add: ex b finish_present [OF w] chat_calls_calls)
qed

lemma run_after_dispatch:
  assumes found: "arxiv_request e (query req) (max_results req) = Inr papers" and ne: "papers \<noteq> []"
    and D: "dispatch e wid papers req
              [(''papers_found'', JInt (int (length papers))),
               (''papers'', JArr (map paper_dict papers)),
               (''workflow_type'', JStr (type_value (automation_type req)))]
              (snd (search_arxiv e (query req) (max_results req)
                 (update_workflow_progress e wid ''Searching arXiv'' 1 5 (registered e wid s)))) = (r, s4)"
    and v: "view_of s4 wid = Some (st, p, rs, er)"
  shows "fst (execute_automation_workflow e req wid s) = Inr () \<and>
         chat_calls (snd (execute_automation_workflow e req wid s)) = chat_calls s4 \<and>
         view_of (snd (execute_automation_workflow e req wid s)) wid =
           Some (case r of Inr res \<Rightarrow> (''completed'', p, res, er)
                         | Inl ex \<Rightarrow> (''failed'', p, rs, Some (str_exn ex))) \<and>
         seen wid (snd (execute_automation_workflow e req wid s)) =
           seen wid s4 @
             [Some (case r of Inr res \<Rightarrow> (''completed'', p, res, er)
                            | Inl ex \<Rightarrow> (''failed'', p, rs, Some (str_exn ex)))]"
proof -
  let ?S = "search_arxiv e (query req) (max_results req)
              (update_workflow_progress e wid ''Searching arXiv'' 1 5 (registered e wid s))"
  have f: "fst ?S = Inr papers" by (simp add: fst_calls found)
  from present_view [OF v] obtain w where
    w: "active_workflows s4 wid = Some w" and vw: "view w = (st, p, rs, er)" by blast
  have pw: "progress w = p" "results w = rs" "error w = er"
    using vw by (simp_all add: view_def)
  show ?thesis
  proof (cases r)
    case (Inl ex)
    define s2 where "s2 = logger ''ERROR'' (''Workflow execution error: '' @ str_exn ex) s4"
    have w2: "active_workflows s2 wid = Some w" using w by (simp add: s2_def logger_def)
    have c2: "chat_calls s2 = chat_calls s4" "seen wid s2 = seen wid s4"
      by (simp_all add: s2_def)
    have b: "workflow_body e req wid s = (Inl ex, s4)"
      using f ne D Inl by (simp add: workflow_body_finish case_prod_beta)
    have x: "execute_automation_workflow e req wid s =
               finish wid (mark_failed (str_exn ex) (isoformat (clock e (ticks s4)))) s2
                 (s2\<lparr>ticks := Suc (ticks s4)\<rparr>)"
      by (simp add: execute_finish b s2_def)
    show ?thesis
      by (simp add: x finish_present [OF w2] Inl pw c2)
  next
    case (Inr res)
    let ?V = "save_workflow_results e wid (query req) res s4"
    have w5: "active_workflows (snd ?V) wid = Some w"
      using w save_same [of s4 e wid "query req" res] by (simp add: same_workflows_def)
    have b: "workflow_body e req wid s =
               finish wid (mark_completed res (isoformat (clock e (ticks (snd ?V))))) (snd ?V)
                 ((snd ?V)\<lparr>ticks := Suc (ticks (snd ?V))\<rparr>)"
      using f ne D Inr by (simp add: workflow_body_finish case_prod_beta)
    have fb: "fst (workflow_body e req wid s) = Inr ()"
      by (simp add: b finish_present [OF w5])
    have x: "execute_automation_workflow e req wid s = workflow_body e req wid s"
      using fb by (cases "workflow_body e req wid s") (simp add: execute_finish)
    show ?thesis
      by (simp add: x b finish_present [OF w5] Inr pw chat_calls_calls)
  qed
qed

lemma literature_review_projections:
  assumes ne: "papers \<noteq> []" and v: "view_of s wid = Some (st, p, rs, er)"
  shows "fst (execute_literature_review e wid papers req res s) =
     (case ollama_chat e Summarize (model req) papers of
        Inl ex \<Rightarrow> Inl (HTTPException 500 (''Summarization failed: '' @ str_exn ex))
      | Inr sc \<Rightarrow>
          (case ollama_chat e Compare (model req) papers of
             Inl ex \<Rightarrow> Inl (HTTPException 500 (''Comparison failed: '' @ str_exn ex))
           | Inr cc \<Rightarrow>
               Inr (AList.update ''key_findings''
                      (JStr (extract_key_findings (strip sc)
                         (fst (analyze_research_gaps e papers (Some (model req)) s))))
                      (AList.update ''gap_analysis''
                         (JStr (fst (analyze_research_gaps e papers (Some (model req)) s)))
                         (AList.update ''comparison'' (JObj (comparison_of papers (strip cc)))
                            (AList.update ''summary'' (JStr (strip sc)) res))))))"
   and "view_of (snd (execute_literature_review e wid papers req res s)) wid =
     Some (st,
       (case ollama_chat e Summarize (model req) papers of
          Inl ex \<Rightarrow> step 2 5 ''Generating Summary''
        | Inr sc \<Rightarrow>
            (case ollama_chat e Compare (model req) papers of
               Inl ex \<Rightarrow> step 3 5 ''Comparing Papers''
             | Inr cc \<Rightarrow> step 5 5 ''Finalizing'')), rs, er)"
   and "chat_calls (snd (execute_literature_review e wid papers req res s)) =
     chat_calls s @
       (case ollama_chat e Summarize (model req) papers of
          Inl ex \<Rightarrow> [Summarize]
        | Inr sc \<Rightarrow>
            (case ollama_chat e Compare (model req) papers of
               Inl ex \<Rightarrow> [Summarize, Compare]
             | Inr cc \<Rightarrow> [Summarize, Compare, GapAnalysis]))"
   and "seen wid (snd (execute_literature_review e wid papers req res s)) =
     seen wid s @
       map (\<lambda>q. Some (st, q, rs, er))
       ([step 2 5 ''Generating Summary'', step 2 5 ''Generating Summary''] @
        (case ollama_chat e Summarize (model req) papers of
          Inl ex \<Rightarrow> []
        | Inr sc \<Rightarrow>
            [step 3 5 ''Comparing Papers'', step 3 5 ''Comparing Papers''] @
            (case ollama_chat e Compare (model req) papers of
               Inl ex \<Rightarrow> []
             | Inr cc \<Rightarrow> [step 4 5 ''Analyzing Gaps'', step 4 5 ''Analyzing Gaps'',
                          step 5 5 ''Finalizing'', step 5 5 ''Finalizing''])))"
  using ne v
  by (simp_all add: execute_literature_review_def case_prod_beta fst_calls chat_calls_calls
        with_progress_def step_def split: sum.splits)









lemma searched_projections:
  "view_of (snd (search_arxiv e q n
      (update_workflow_progress e wid ''Searching arXiv'' 1 5 (registered e wid s)))) wid =
     Some (''running'', step 1 5 ''Searching arXiv'', [], None)"
  "seen wid (snd (search_arxiv e q n
      (update_workflow_progress e wid ''Searching arXiv'' 1 5 (registered e wid s)))) =
     seen wid s @ map running_at [step 0 0 ''Initializing'', step 1 5 ''Searching arXiv'',
                                  step 1 5 ''Searching arXiv'']"
  "chat_calls (snd (search_arxiv e q n
      (update_workflow_progress e wid ''Searching arXiv'' 1 5 (registered e wid s)))) = chat_calls s"
  by (simp_all add: with_progress_def step_def running_at_def chat_calls_calls)

lemma dispatched_run:
  assumes found: "arxiv_request e (query req) (max_results req) = Inr papers" and ne: "papers \<noteq> []"
    and D1: "fst (dispatch e wid papers req
              [(''papers_found'', JInt (int (length papers))),
               (''papers'', JArr (map paper_dict papers)),
               (''workflow_type'', JStr (type_value (automation_type req)))]
              (snd (search_arxiv e (query req) (max_results req)
                 (update_workflow_progress e wid ''Searching arXiv'' 1 5 (registered e wid s))))) = r"
    and D2: "view_of (snd (dispatch e wid papers req
              [(''papers_found'', JInt (int (length papers))),
               (''papers'', JArr (map paper_dict papers)),
               (''workflow_type'', JStr (type_value (automation_type req)))]
              (snd (search_arxiv e (query req) (max_results req)
                 (update_workflow_progress e wid ''Searching arXiv'' 1 5 (registered e wid s)))))) wid
             = Some (''running'', p, [], None)"
    and D3: "seen wid (snd (dispatch e wid papers req
              [(''papers_found'', JInt (int (length papers))),
               (''papers'', JArr (map paper_dict papers)),
               (''workflow_type'', JStr (type_value (automation_type req)))]
              (snd (search_arxiv e (query req) (max_results req)
                 (update_workflow_progress e wid ''Searching arXiv'' 1 5 (registered e wid s))))))
             = seen wid (snd (search_arxiv e (query req) (max_results req)
                 (update_workflow_progress e wid ''Searching arXiv'' 1 5 (registered e wid s))))
               @ map running_at qs"
  shows "fst (execute_automation_workflow e req wid s) = Inr () \<and>
         view_of (snd (execute_automation_workflow e req wid s)) wid =
           Some (case r of Inr res \<Rightarrow> (''completed'', p, res, None)
                         | Inl ex \<Rightarrow> (''failed'', p, [], Some (str_exn ex))) \<and>
         map (map_option view) (lifetime e req wid s) =
           map running_at (step 0 0 ''Initializing'' # step 1 5 ''Searching arXiv'' #
                           step 1 5 ''Searching arXiv'' # qs) @
           [Some (case r of Inr res \<Rightarrow> (''completed'', p, res, None)
                          | Inl ex \<Rightarrow> (''failed'', p, [], Some (str_exn ex)))]"
proof -
  let ?sS = "snd (search_arxiv e (query req) (max_results req)
                 (update_workflow_progress e wid ''Searching arXiv'' 1 5 (registered e wid s)))"
  let ?D = "dispatch e wid papers req
              [(''papers_found'', JInt (int (length papers))),
               (''papers'', JArr (map paper_dict papers)),
               (''workflow_type'', JStr (type_value (automation_type req)))] ?sS"
  have D: "?D = (r, snd ?D)" using D1 by (cases ?D) simp
  note R = run_after_dispatch [OF found ne D D2]
  have "seen wid (snd (execute_automation_workflow e req wid s)) =
          seen wid s @
            (map running_at (step 0 0 ''Initializing'' # step 1 5 ''Searching arXiv'' #
                           step 1 5 ''Searching arXiv'' # qs) @
           [Some (case r of Inr res \<Rightarrow> (''completed'', p, res, None)
                          | Inl ex \<Rightarrow> (''failed'', p, [], Some (str_exn ex)))])"
    using R D3 by (simp add: with_progress_def step_def running_at_def)
  from lifetime_seen [OF this] R show ?thesis by simp
qed

lemma lifetime_completes:
  "\<exists>ws wend. lifetime e req wid s =
       map Some (initial_workflow (clock e (ticks s)) (clock e (Suc (ticks s))) # ws @ [wend]) \<and>
     run_shape (arxiv_request e (query req) (max_results req) = Inr [])
       (initial_workflow (clock e (ticks s)) (clock e (Suc (ticks s)))) ws wend \<and>
     active_workflows (snd (execute_automation_workflow e req wid s)) wid = Some wend"
  using execute_completes [of e req wid s]
  unfolding completes_def lifetime_def by blast

lemma literature_review_dispatch:
  fixes e :: env and wid :: string and s :: sys and req :: AutomationRequest
    and papers :: "Paper list"
  assumes ty: "automation_type req = LITERATURE_REVIEW" and ne: "papers \<noteq> []"
  defines "sS \<equiv> snd (search_arxiv e (query req) (max_results req)
                 (update_workflow_progress e wid ''Searching arXiv'' 1 5 (registered e wid s)))"
  defines "D \<equiv> dispatch e wid papers req
              [(''papers_found'', JInt (int (length papers))),
               (''papers'', JArr (map paper_dict papers)),
               (''workflow_type'', JStr (type_value (automation_type req)))] sS"
  shows "ollama_chat e Summarize (model req) papers = Inl ex \<Longrightarrow>
           fst D = Inl (HTTPException 500 (''Summarization failed: '' @ str_exn ex)) \<and>
           view_of (snd D) wid = Some (''running'', step 2 5 ''Generating Summary'', [], None) \<and>
           seen wid (snd D) = seen wid sS @ map running_at
             [step 2 5 ''Generating Summary'', step 2 5 ''Generating Summary''] \<and>
           chat_calls (snd D) = chat_calls s @ [Summarize]"
    and "ollama_chat e Summarize (model req) papers = Inr sc \<Longrightarrow>
         ollama_chat e Compare (model req) papers = Inl ex \<Longrightarrow>
           fst D = Inl (HTTPException 500 (''Comparison failed: '' @ str_exn ex)) \<and>
           view_of (snd D) wid = Some (''running'', step 3 5 ''Comparing Papers'', [], None) \<and>
           seen wid (snd D) = seen wid sS @ map running_at
             [step 2 5 ''Generating Summary'', step 2 5 ''Generating Summary'',
              step 3 5 ''Comparing Papers'', step 3 5 ''Comparing Papers''] \<and>
           chat_calls (snd D) = chat_calls s @ [Summarize, Compare]"
    and "ollama_chat e Summarize (model req) papers = Inr sc \<Longrightarrow>
         ollama_chat e Compare (model req) papers = Inr cc \<Longrightarrow>
           fst D = Inr [(''papers_found'', JInt (int (length papers))),
                        (''papers'', JArr (map paper_dict papers)),
                        (''workflow_type'', JStr ''literature_review''),
                        (''summary'', JStr (strip sc)),
                        (''comparison'', JObj (comparison_of papers (strip cc))),
                        (''gap_analysis'',
                           JStr (case ollama_chat e GapAnalysis (model req) papers of
                                   Inr gc \<Rightarrow> strip gc
                                 | Inl ex \<Rightarrow> ''Gap analysis failed: '' @ str_exn ex)),
                        (''key_findings'',
                           JStr (extract_key_findings (strip sc)
                             (case ollama_chat e GapAnalysis (model req) papers of
                                   Inr gc \<Rightarrow> strip gc
                                 | Inl ex \<Rightarrow> ''Gap analysis failed: '' @ str_exn ex)))] \<and>
           view_of (snd D) wid = Some (''running'', step 5 5 ''Finalizing'', [], None) \<and>
           seen wid (snd D) = seen wid sS @ map running_at
             [step 2 5 ''Generating Summary'', step 2 5 ''Generating Summary'',
              step 3 5 ''Comparing Papers'', step 3 5 ''Comparing Papers'',
              step 4 5 ''Analyzing Gaps'', step 4 5 ''Analyzing Gaps'',
              step 5 5 ''Finalizing'', step 5 5 ''Finalizing''] \<and>
           chat_calls (snd D) = chat_calls s @ [Summarize, Compare, GapAnalysis]"
proof -
  have v: "view_of sS wid = Some (''running'', step 1 5 ''Searching arXiv'', [], None)"
    unfolding sS_def by (rule searched_projections)
  have c: "chat_calls sS = chat_calls s"
    unfolding sS_def by (rule searched_projections)
  note P = literature_review_projections [OF ne v, of e req]
  show "ollama_chat e Summarize (model req) papers = Inl ex \<Longrightarrow>
           fst D = Inl (HTTPException 500 (''Summarization failed: '' @ str_exn ex)) \<and>
           view_of (snd D) wid = Some (''running'', step 2 5 ''Generating Summary'', [], None) \<and>
           seen wid (snd D) = seen wid sS @ map running_at
             [step 2 5 ''Generating Summary'', step 2 5 ''Generating Summary''] \<and>
           chat_calls (snd D) = chat_calls s @ [Summarize]"
    by (simp add: D_def dispatch_def ty P c running_at_def)
  show "ollama_chat e Summarize (model req) papers = Inr sc \<Longrightarrow>
         ollama_chat e Compare (model req) papers = Inl ex \<Longrightarrow>
           fst D = Inl (HTTPException 500 (''Comparison failed: '' @ str_exn ex)) \<and>
           view_of (snd D) wid = Some (''running'', step 3 5 ''Comparing Papers'', [], None) \<and>
           seen wid (snd D) = seen wid sS @ map running_at
             [step 2 5 ''Generating Summary'', step 2 5 ''Generating Summary'',
              step 3 5 ''Comparing Papers'', step 3 5 ''Comparing Papers''] \<and>
           chat_calls (snd D) = chat_calls s @ [Summarize, Compare]"
    by (simp add: D_def dispatch_def ty P c running_at_def)
  show "ollama_chat e Summarize (model req) papers = Inr sc \<Longrightarrow>
         ollama_chat e Compare (model req) papers = Inr cc \<Longrightarrow>
           fst D = Inr [(''papers_found'', JInt (int (length papers))),
                        (''papers'', JArr (map paper_dict papers)),
                        (''workflow_type'', JStr ''literature_review''),
                        (''summary'', JStr (strip sc)),
                        (''comparison'', JObj (comparison_of papers (strip cc))),
                        (''gap_analysis'',
                           JStr (case ollama_chat e GapAnalysis (model req) papers of
                                   Inr gc \<Rightarrow> strip gc
                                 | Inl ex \<Rightarrow> ''Gap analysis failed: '' @ str_exn ex)),
                        (''key_findings'',
                           JStr (extract_key_findings (strip sc)
                             (case ollama_chat e GapAnalysis (model req) papers of
                                   Inr gc \<Rightarrow> strip gc
                                 | Inl ex \<Rightarrow> ''Gap analysis failed: '' @ str_exn ex)))] \<and>
           view_of (snd D) wid = Some (''running'', step 5 5 ''Finalizing'', [], None) \<and>
           seen wid (snd D) = seen wid sS @ map running_at
             [step 2 5 ''Generating Summary'', step 2 5 ''Generating Summary'',
              step 3 5 ''Comparing Papers'', step 3 5 ''Comparing Papers'',
              step 4 5 ''Analyzing Gaps'', step 4 5 ''Analyzing Gaps'',
              step 5 5 ''Finalizing'', step 5 5 ''Finalizing''] \<and>
           chat_calls (snd D) = chat_calls s @ [Summarize, Compare, GapAnalysis]"
    by (simp add: D_def dispatch_def ty P c running_at_def fst_calls ne)
qed




lemma entry_of_view:
  "view_of s wid = Some (st, p, rs, er) \<Longrightarrow>
     \<exists>w. active_workflows s wid = Some w \<and> status w = st \<and> progress w = p \<and> results w = rs \<and>
         error w = er"
  by (auto simp: view_of_def view_def)

lemma no_papers_lifetime:
  assumes np: "arxiv_request e (query req) (max_results req) = Inr []"
  shows "map (map_option view) (lifetime e req wid s) =
     map running_at [step 0 0 ''Initializing'', step 1 5 ''Searching arXiv'', step 1 5 ''Searching arXiv''] @
     [Some (''completed'', step 1 5 ''Searching arXiv'', [], Some ''No papers found for the given query'')]"
proof -
  let ?sU = "update_workflow_progress e wid ''Searching arXiv'' 1 5 (registered e wid s)"
  let ?S = "search_arxiv e (query req) (max_results req) ?sU"
  have f: "fst ?S = Inr []" by (simp add: fst_calls np)
  have v: "view_of (snd ?S) wid = Some (''running'', step 1 5 ''Searching arXiv'', [], None)"
    by (rule searched_projections)
  from present_view [OF v] obtain w where
    w: "active_workflows (snd ?S) wid = Some w" and
    vw: "view w = (''running'', step 1 5 ''Searching arXiv'', [], None)"
    by blast
  have pw: "progress w = step 1 5 ''Searching arXiv''" "results w = []"
    using vw by (simp_all add: view_def)
  have b: "workflow_body e req wid s = finish wid mark_no_papers (snd ?S) (snd ?S)"
    using f by (simp add: workflow_body_finish case_prod_beta)
  have fb: "fst (workflow_body e req wid s) = Inr ()"
    by (simp add: b finish_present [OF w])
  have ex: "execute_automation_workflow e req wid s = workflow_body e req wid s"
    using fb by (cases "workflow_body e req wid s") (simp add: execute_finish)
  have "seen wid (snd (execute_automation_workflow e req wid s)) =
          seen wid s @
           (map running_at [step 0 0 ''Initializing'', step 1 5 ''Searching arXiv'', step 1 5 ''Searching arXiv''] @
            [Some (''completed'', step 1 5 ''Searching arXiv'', [], Some ''No papers found for the given query'')])"
    by (simp add: ex b finish_present [OF w] pw with_progress_def step_def running_at_def)
  from lifetime_seen [OF this] show ?thesis .
qed

lemma map_option_view_comp:
  "map (map_option (\<lambda>w. f (view w))) xs = map (map_option f) (map (map_option view) xs)"
  by (simp add: option.map_comp comp_def)



lemma literature_review_completes:
  assumes ty: "automation_type req = LITERATURE_REVIEW"
    and found: "arxiv_request e (query req) (max_results req) = Inr papers" and ne: "papers \<noteq> []"
    and sok: "ollama_chat e Summarize (model req) papers = Inr sc"
    and cok: "ollama_chat e Compare (model req) papers = Inr cc"
  shows "view_of (snd (execute_automation_workflow e req wid s)) wid =
           Some (''completed'', step 5 5 ''Finalizing'',
                 [(''papers_found'', JInt (int (length papers))),
                  (''papers'', JArr (map paper_dict papers)),
                  (''workflow_type'', JStr ''literature_review''),
                  (''summary'', JStr (strip sc)),
                  (''comparison'', JObj (comparison_of papers (strip cc))),
                  (''gap_analysis'',
                     JStr (case ollama_chat e GapAnalysis (model req) papers of
                             Inr gc \<Rightarrow> strip gc
                           | Inl ex \<Rightarrow> ''Gap analysis failed: '' @ str_exn ex)),
                  (''key_findings'',
                     JStr (extract_key_findings (strip sc)
                       (case ollama_chat e GapAnalysis (model req) papers of
                             Inr gc \<Rightarrow> strip gc
                           | Inl ex \<Rightarrow> ''Gap analysis failed: '' @ str_exn ex)))], None)"
    and "map (map_option (\<lambda>w. (fst (view w), current_step (fst (snd (view w))))))
           (lifetime e req wid s) =
         map Some [(''running'', 0), (''running'', 1), (''running'', 1), (''running'', 2),
                   (''running'', 2), (''running'', 3), (''running'', 3), (''running'', 4),
                   (''running'', 4), (''running'', 5), (''running'', 5), (''completed'', 5)]"
proof -
  note L = literature_review_dispatch(3) [OF ty ne sok cok, of wid s]
  note R = dispatched_run [OF found ne conjunct1 [OF L] conjunct1 [OF conjunct2 [OF L]]
         conjunct1 [OF conjunct2 [OF conjunct2 [OF L]]]]
  from R show "view_of (snd (execute_automation_workflow e req wid s)) wid =
           Some (''completed'', step 5 5 ''Finalizing'',
                 [(''papers_found'', JInt (int (length papers))),
                  (''papers'', JArr (map paper_dict papers)),
                  (''workflow_type'', JStr ''literature_review''),
                  (''summary'', JStr (strip sc)),
                  (''comparison'', JObj (comparison_of papers (strip cc))),
                  (''gap_analysis'',
                     JStr (case ollama_chat e GapAnalysis (model req) papers of
                             Inr gc \<Rightarrow> strip gc
                           | Inl ex \<Rightarrow> ''Gap analysis failed: '' @ str_exn ex)),
                  (''key_findings'',
                     JStr (extract_key_findings (strip sc)
                       (case ollama_chat e GapAnalysis (model req) papers of
                             Inr gc \<Rightarrow> strip gc
                           | Inl ex \<Rightarrow> ''Gap analysis failed: '' @ str_exn ex)))], None)"
    by simp
  show "map (map_option (\<lambda>w. (fst (view w), current_step (fst (snd (view w))))))
           (lifetime e req wid s) =
         map Some [(''running'', 0), (''running'', 1), (''running'', 1), (''running'', 2),
                   (''running'', 2), (''running'', 3), (''running'', 3), (''running'', 4),
                   (''running'', 4), (''running'', 5), (''running'', 5), (''completed'', 5)]"
    unfolding map_option_view_comp [of "\<lambda>v. (fst v, current_step (fst (snd v)))"]
    using R by (simp add: running_at_def step_def)
qed

lemma review_env_facts:
  "automation_type (sample_request ty) = ty"
  "arxiv_request review_env q n = Inr [sample_paper]"
  "arxiv_request compare_fails_env q n = Inr [sample_paper]"
  "arxiv_request gap_analysis_fails_env q n = Inr [sample_paper]"
  "ollama_chat review_env t m ps = Inr ''fine''"
  "ollama_chat compare_fails_env Summarize m ps = Inr ''fine''"
  "ollama_chat compare_fails_env Compare m ps = Inl (OtherError ''connection refused'')"
  "ollama_chat gap_analysis_fails_env Summarize m ps = Inr ''fine''"
  "ollama_chat gap_analysis_fails_env Compare m ps = Inr ''fine''"
  "ollama_chat gap_analysis_fails_env GapAnalysis m ps = Inl (OtherError ''connection refused'')"
  by (simp_all add: sample_request_def review_env_def compare_fails_env_def
        gap_analysis_fails_env_def sample_env_def all_answer_def compare_fails_def
        gap_analysis_fails_def)

lemma files_update [simp]: "files (update_workflow_progress e wid n k t s) = files s"
proof (cases "active_workflows s wid")
  case None
  then show ?thesis by (simp add: update_workflow_progress_def)
next
  case (Some w)
  then show ?thesis by (simp add: update_progress_present [OF Some])
qed

lemma files_calls [simp]:
  "files (snd (search_arxiv e q n s)) = files s"
  "files (snd (summarize_with_ollama e papers m s)) = files s"
  "files (snd (extract_comparison papers body s)) = files s"
  "files (snd (analyze_research_gaps e papers m s)) = files s"
  "files (snd (analyze_trends e papers m s)) = files s"
  "files (snd (perform_custom_analysis e papers i mm s)) = files s"
  "files (registered e wid s) = files s"
  "files (logger l msg s) = files s"
        apply (simp add: search_arxiv_def logger_def split: sum.splits exn.splits)
       apply (simp add: summarize_with_ollama_def chat_def logger_def split: sum.splits)
      apply (simp add: extract_comparison_def logger_def Let_def split: option.splits json.splits)
     apply (simp add: analyze_research_gaps_def chat_def logger_def split: sum.splits)
    apply (simp add: analyze_trends_def chat_def logger_def split: sum.splits)
   apply (simp add: perform_custom_analysis_def chat_def split: sum.splits)
  apply (simp add: registered_def write_workflows_def)
  apply (simp add: logger_def)
  done

lemma files_compare [simp]:
  "files (snd (compare_papers_with_ollama e papers m s)) = files s"
  by (simp add: compare_papers_with_ollama_def chat_def logger_def case_prod_beta split: sum.splits)















subsection \<open>The claims\<close>

text \<open>
  C1, as amended. The start operation returns the workflow ID with status
  \<^verbatim>\<open>started\<close> and progress {0, 0, Initializing} in its response and queues the execution
  routine; it writes nothing to \<^verbatim>\<open>active_workflows\<close>, so a status query issued after the
  start and before the routine has run answers as it did before the start (not found, for
  a new ID). The running state with progress {0, 0, Initializing} is the first write of
  the execution routine, from whatever state \<open>s'\<close> the server runs it in, and after the
  routine has run the query finds the workflow.
\<close>

theorem start_registers_nothing:
  "fst (execute_endpoint uuid request s) =
     AutomationResponse True (take 8 uuid) ''started'' None None
       (Some \<lparr>current_step = 0, total_steps = 0, step_name = ''Initializing''\<rparr>) \<and>
   active_workflows (snd (execute_endpoint uuid request s)) = active_workflows s \<and>
   background_tasks (snd (execute_endpoint uuid request s)) =
     background_tasks s @ [(request, take 8 uuid)] \<and>
   get_workflow_status (take 8 uuid) (snd (execute_endpoint uuid request s)) =
     get_workflow_status (take 8 uuid) s \<and>
   (\<exists>later. lifetime e request (take 8 uuid) s' =
      Some \<lparr>status = ''running'',
            progress = \<lparr>current_step = 0, total_steps = 0, step_name = ''Initializing''\<rparr>,
            results = [], error = None,
            created_at = isoformat (clock e (ticks s')),
            updated_at = isoformat (clock e (Suc (ticks s')))\<rparr> # later) \<and>
   (\<exists>found. get_workflow_status (take 8 uuid)
               (snd (execute_automation_workflow e request (take 8 uuid) s')) = Inr found)"
proof -
  from lifetime_completes [of e request "take 8 uuid" s'] obtain ws wend where
    l: "lifetime e request (take 8 uuid) s' =
          map Some (initial_workflow (clock e (ticks s')) (clock e (Suc (ticks s'))) # ws @ [wend])"
    and a: "active_workflows (snd (execute_automation_workflow e request (take 8 uuid) s'))
              (take 8 uuid) = Some wend"
    by blast
  have 1: "\<exists>later. lifetime e request (take 8 uuid) s' =
      Some \<lparr>status = ''running'',
            progress = \<lparr>current_step = 0, total_steps = 0, step_name = ''Initializing''\<rparr>,
            results = [], error = None,
            created_at = isoformat (clock e (ticks s')),
            updated_at = isoformat (clock e (Suc (ticks s')))\<rparr> # later"
    using l by (simp add: initial_workflow_def)
  have 2: "\<exists>found. get_workflow_status (take 8 uuid)
               (snd (execute_automation_workflow e request (take 8 uuid) s')) = Inr found"
    using a by (simp add: get_workflow_status_def)
  show ?thesis
    using 1 2 by (simp add: execute_endpoint_def get_workflow_status_def Let_def)
qed

theorem start_status_counterexample:
  "get_workflow_status (take 8 sample_uuid)
     (snd (execute_endpoint sample_uuid (sample_request LITERATURE_REVIEW) init_summarizer)) =
   Inl (HTTPException 404 ''Workflow not found'')"
  by (simp add: get_workflow_status_def execute_endpoint_def init_summarizer_def Let_def)




text \<open>
  C3. When the search returns an empty list of papers, the run ends with status
  \<^verbatim>\<open>completed\<close> (not \<^verbatim>\<open>failed\<close>), the note \<^verbatim>\<open>No papers found for the given query\<close>
  (kept under the key \<^verbatim>\<open>error\<close>) and an empty results mapping; the model is never
  called, so no analysis step runs, and the routine returns normally.
\<close>

theorem no_papers_completed:
  assumes "arxiv_request e (query request) (max_results request) = Inr []"
  shows "\<exists>w. active_workflows (snd (execute_automation_workflow e request workflow_id s)) workflow_id = Some w \<and>
           status w = ''completed'' \<and>
           error w = Some ''No papers found for the given query'' \<and>
           results w = [] \<and>
           chat_calls (snd (execute_automation_workflow e request workflow_id s)) = chat_calls s \<and>
           fst (execute_automation_workflow e request workflow_id s) = Inr ()"
  using entry_of_view [OF no_papers_run(2) [OF assms, of workflow_id s]]
        no_papers_run(1,3) [OF assms, of workflow_id s]
  by auto

theorem no_papers_completed_witness:
  "arxiv_request no_papers_env (query (sample_request TREND_ANALYSIS))
     (max_results (sample_request TREND_ANALYSIS)) = Inr [] \<and>
   (\<exists>w. active_workflows
          (snd (execute_automation_workflow no_papers_env (sample_request TREND_ANALYSIS) sample_id
                  init_summarizer)) sample_id = Some w \<and>
        status w = ''completed'' \<and> error w = Some ''No papers found for the given query'' \<and>
        results w = []) \<and>
   chat_calls (snd (execute_automation_workflow no_papers_env (sample_request TREND_ANALYSIS) sample_id
                  init_summarizer)) = []"
proof -
  have h: "arxiv_request no_papers_env (query (sample_request TREND_ANALYSIS))
     (max_results (sample_request TREND_ANALYSIS)) = Inr []"
    by (simp add: no_papers_env_def sample_env_def)
  from no_papers_completed [OF h, of sample_id init_summarizer] h show ?thesis
    by (auto simp: init_summarizer_def)
qed

text \<open>
  C4, as amended. In every state a run writes, the error is set only when the status is
  \<^verbatim>\<open>failed\<close>, or when the search found no paper and the run ended \<^verbatim>\<open>completed\<close> with the
  note \<^verbatim>\<open>No papers found for the given query\<close> and empty results; a running state has no
  error. The claim as stated fails on the run that finds no paper, whose completed state
  carries the note as its error.
\<close>

theorem error_only_failed_or_no_papers:
  "\<exists>ws. lifetime e request workflow_id s = map Some ws \<and>
     (\<forall>w\<in>set ws.
        error w = None \<or> status w = ''failed'' \<or>
        (arxiv_request e (query request) (max_results request) = Inr [] \<and>
         status w = ''completed'' \<and> error w = Some ''No papers found for the given query'' \<and>
         results w = []))"
proof -
  let ?w0 = "initial_workflow (clock e (ticks s)) (clock e (Suc (ticks s)))"
  from lifetime_completes [of e request workflow_id s] obtain ws wend where
    l: "lifetime e request workflow_id s = map Some (?w0 # ws @ [wend])" and
    r: "run_shape (arxiv_request e (query request) (max_results request) = Inr []) ?w0 ws wend"
    by blast
  have "\<forall>w\<in>set (?w0 # ws @ [wend]).
        error w = None \<or> status w = ''failed'' \<or>
        (arxiv_request e (query request) (max_results request) = Inr [] \<and>
         status w = ''completed'' \<and> error w = Some ''No papers found for the given query'' \<and>
         results w = [])"
    using r unfolding run_shape_def no_papers_note_def by auto
  then show ?thesis using l by blast
qed

theorem error_only_failed_or_no_papers_witness:
  "(\<exists>ws. lifetime no_papers_env (sample_request LITERATURE_REVIEW) sample_id init_summarizer = map Some ws \<and>
     (\<forall>w\<in>set ws.
        error w = None \<or> status w = ''failed'' \<or>
        (arxiv_request no_papers_env (query (sample_request LITERATURE_REVIEW))
           (max_results (sample_request LITERATURE_REVIEW)) = Inr [] \<and>
         status w = ''completed'' \<and> error w = Some ''No papers found for the given query'' \<and>
         results w = []))) \<and>
   map (map_option (\<lambda>w. (fst (view w), snd (snd (snd (view w))))))
     (lifetime no_papers_env (sample_request LITERATURE_REVIEW) sample_id init_summarizer) =
   [Some (''running'', None), Some (''running'', None), Some (''running'', None),
    Some (''completed'', Some ''No papers found for the given query'')]"
proof -
  have h: "arxiv_request no_papers_env (query (sample_request LITERATURE_REVIEW))
     (max_results (sample_request LITERATURE_REVIEW)) = Inr []"
    by (simp add: no_papers_env_def sample_env_def)
  have "map (map_option (\<lambda>w. (fst (view w), snd (snd (snd (view w))))))
     (lifetime no_papers_env (sample_request LITERATURE_REVIEW) sample_id init_summarizer) =
   [Some (''running'', None), Some (''running'', None), Some (''running'', None),
    Some (''completed'', Some ''No papers found for the given query'')]"
    unfolding map_option_view_comp [of "\<lambda>v. (fst v, snd (snd (snd v)))"]
    by (simp add: no_papers_lifetime [OF h] running_at_def)
  with error_only_failed_or_no_papers
         [of no_papers_env "sample_request LITERATURE_REVIEW" sample_id init_summarizer]
  show ?thesis by blast
qed

theorem error_on_completed_counterexample:
  "map_option (\<lambda>w. (status w, error w))
     (active_workflows
        (snd (execute_automation_workflow no_papers_env (sample_request LITERATURE_REVIEW) sample_id
                init_summarizer)) sample_id) =
   Some (''completed'', Some ''No papers found for the given query'')"
proof -
  have h: "arxiv_request no_papers_env (query (sample_request LITERATURE_REVIEW))
     (max_results (sample_request LITERATURE_REVIEW)) = Inr []"
    by (simp add: no_papers_env_def sample_env_def)
  from entry_of_view [OF no_papers_run(2) [OF h, of sample_id init_summarizer]]
  show ?thesis by auto
qed




text \<open>
  C6. Over the states one run writes for its workflow, in order, the current step never
  decreases, and in each of them the current step is at most the total number of steps.
  This holds for every workflow type and whatever the search, the model and the disk
  answer.
\<close>

theorem progress_monotone:
  "\<exists>ws. lifetime e request workflow_id s = map Some ws \<and>
        sorted (map (\<lambda>w. current_step (progress w)) ws) \<and>
        (\<forall>w\<in>set ws. current_step (progress w) \<le> total_steps (progress w))"
proof -
  let ?w0 = "initial_workflow (clock e (ticks s)) (clock e (Suc (ticks s)))"
  from lifetime_completes [of e request workflow_id s] obtain ws wend where
    l: "lifetime e request workflow_id s = map Some (?w0 # ws @ [wend])" and
    r: "run_shape (arxiv_request e (query request) (max_results request) = Inr []) ?w0 ws wend"
    by blast
  have "sorted (map (\<lambda>w. current_step (progress w)) (?w0 # ws @ [wend]))"
    using r unfolding run_shape_def by blast
  moreover have "\<forall>w\<in>set (?w0 # ws @ [wend]). current_step (progress w) \<le> total_steps (progress w)"
    using r unfolding run_shape_def by auto
  ultimately show ?thesis using l by blast
qed

theorem progress_monotone_witness:
  "(\<exists>ws. lifetime review_env (sample_request LITERATURE_REVIEW) sample_id init_summarizer = map Some ws \<and>
        sorted (map (\<lambda>w. current_step (progress w)) ws) \<and>
        (\<forall>w\<in>set ws. current_step (progress w) \<le> total_steps (progress w))) \<and>
   map (map_option (\<lambda>w. current_step (progress w)))
     (lifetime review_env (sample_request LITERATURE_REVIEW) sample_id init_summarizer) =
   map Some [0, 1, 1, 2, 2, 3, 3, 4, 4, 5, 5, 5]"
proof -
  have ne: "[sample_paper] \<noteq> []" by simp
  have "map (map_option (\<lambda>w. snd (fst (view w), current_step (fst (snd (view w))))))
     (lifetime review_env (sample_request LITERATURE_REVIEW) sample_id init_summarizer) =
   map Some [0, 1, 1, 2, 2, 3, 3, 4, 4, 5, 5, 5]"
    using arg_cong [OF literature_review_completes(2)
            [OF review_env_facts(1) review_env_facts(2) ne review_env_facts(5) review_env_facts(5),
             of sample_id init_summarizer], of "map (map_option snd)"]
    by (simp add: option.map_comp comp_def)
  then have "map (map_option (\<lambda>w. current_step (progress w)))
     (lifetime review_env (sample_request LITERATURE_REVIEW) sample_id init_summarizer) =
   map Some [0, 1, 1, 2, 2, 3, 3, 4, 4, 5, 5, 5]"
    by (simp add: view_def)
  with progress_monotone [of review_env "sample_request LITERATURE_REVIEW" sample_id init_summarizer]
  show ?thesis by blast
qed

text \<open>
  C7. A run writes a terminal status once, with its last write: every state written
  before is running, with empty results and no error; the last one is completed or
  failed, and it is the entry the map holds when the routine returns, which it does
  normally. So nothing of the run changes status, results or error after the terminal
  state has been reached.
\<close>

theorem terminal_exactly_once:
  "\<exists>ws wend. lifetime e request workflow_id s = map Some (ws @ [wend]) \<and>
     (\<forall>w\<in>set ws. status w = ''running'' \<and> results w = [] \<and> error w = None) \<and>
     terminal wend \<and>
     active_workflows (snd (execute_automation_workflow e request workflow_id s)) workflow_id = Some wend \<and>
     fst (execute_automation_workflow e request workflow_id s) = Inr ()"
proof -
  let ?w0 = "initial_workflow (clock e (ticks s)) (clock e (Suc (ticks s)))"
  from lifetime_completes [of e request workflow_id s] obtain ws wend where
    l: "lifetime e request workflow_id s = map Some (?w0 # ws @ [wend])" and
    r: "run_shape (arxiv_request e (query request) (max_results request) = Inr []) ?w0 ws wend" and
    a: "active_workflows (snd (execute_automation_workflow e request workflow_id s)) workflow_id = Some wend"
    by blast
  have 1: "lifetime e request workflow_id s = map Some ((?w0 # ws) @ [wend])"
    using l by simp
  have 2: "\<forall>w\<in>set (?w0 # ws). status w = ''running'' \<and> results w = [] \<and> error w = None"
    using r unfolding run_shape_def by auto
  have 3: "terminal wend"
    using r unfolding run_shape_def terminal_def by auto
  have 4: "fst (execute_automation_workflow e request workflow_id s) = Inr ()"
    using execute_completes [of e request workflow_id s] by simp
  show ?thesis using 1 2 3 4 a by blast
qed

theorem terminal_exactly_once_witness:
  "(\<exists>ws wend. lifetime review_env (sample_request LITERATURE_REVIEW) sample_id init_summarizer =
        map Some (ws @ [wend]) \<and>
     (\<forall>w\<in>set ws. status w = ''running'' \<and> results w = [] \<and> error w = None) \<and>
     terminal wend \<and>
     active_workflows (snd (execute_automation_workflow review_env (sample_request LITERATURE_REVIEW)
        sample_id init_summarizer)) sample_id = Some wend \<and>
     fst (execute_automation_workflow review_env (sample_request LITERATURE_REVIEW)
        sample_id init_summarizer) = Inr ()) \<and>
   map (map_option status)
     (lifetime review_env (sample_request LITERATURE_REVIEW) sample_id init_summarizer) =
   map Some [''running'', ''running'', ''running'', ''running'', ''running'', ''running'',
             ''running'', ''running'', ''running'', ''running'', ''running'', ''completed'']"
proof -
  have ne: "[sample_paper] \<noteq> []" by simp
  have "map (map_option (\<lambda>w. fst (fst (view w), current_step (fst (snd (view w))))))
     (lifetime review_env (sample_request LITERATURE_REVIEW) sample_id init_summarizer) =
   map Some [''running'', ''running'', ''running'', ''running'', ''running'', ''running'',
             ''running'', ''running'', ''running'', ''running'', ''running'', ''completed'']"
    using arg_cong [OF literature_review_completes(2)
            [OF review_env_facts(1) review_env_facts(2) ne review_env_facts(5) review_env_facts(5),
             of sample_id init_summarizer], of "map (map_option fst)"]
    by (simp add: option.map_comp comp_def)
  then have "map (map_option status)
     (lifetime review_env (sample_request LITERATURE_REVIEW) sample_id init_summarizer) =
   map Some [''running'', ''running'', ''running'', ''running'', ''running'', ''running'',
             ''running'', ''running'', ''running'', ''running'', ''running'', ''completed'']"
    by (simp add: view_def)
  with terminal_exactly_once [of review_env "sample_request LITERATURE_REVIEW" sample_id init_summarizer]
  show ?thesis by blast
qed






text \<open>
  C10. For a workflow ID that is not a key of \<^verbatim>\<open>active_workflows\<close>,
  \<^verbatim>\<open>_update_workflow_progress\<close> does nothing: it returns normally (the model has no
  raising branch), adds no entry, and leaves the dictionary and all the rest of the
  state (clock, log, files) as they were.
\<close>

theorem update_workflow_progress_unknown_id:
  "workflow_id \<notin> dom (active_workflows s) \<Longrightarrow>
     update_workflow_progress e workflow_id name cur tot s = s"
  by (auto simp: update_workflow_progress_def dom_def split: option.splits)

theorem update_workflow_progress_unknown_id_witness:
  "''0a1b2c3d'' \<notin> dom (active_workflows init_summarizer) \<and>
   update_workflow_progress (sample_env (\<lambda>t. Inr ''ok'') (Inr []) None) ''0a1b2c3d''
     ''Searching arXiv'' 1 5 init_summarizer = init_summarizer"
  using update_workflow_progress_unknown_id
          [of "''0a1b2c3d''" init_summarizer "sample_env (\<lambda>t. Inr ''ok'') (Inr []) None"
              "''Searching arXiv''" 1 5]
  by (simp add: init_summarizer_def)

end
